theory Spec2Isabelle
  imports Main
begin

section \<open>Go strings and the library functions the package calls\<close>

text \<open>
  A Go string is a sequence of bytes; \<^typ>\<open>string\<close> is a list of 8-bit characters, so
  \<^term>\<open>length\<close> is Go's \<^verbatim>\<open>len\<close> and \<^term>\<open>(!)\<close> is byte indexing (used below only
  under the same length guard the source has).
\<close>

subsection \<open>strings.HasPrefix, strings.Index, strings.Contains, strings.SplitN\<close>

fun HasPrefix :: "string \<Rightarrow> string \<Rightarrow> bool" where
  "HasPrefix s [] = True"
| "HasPrefix [] (p # ps) = False"
| "HasPrefix (c # cs) (p # ps) = (c = p \<and> HasPrefix cs ps)"

text \<open>\<^verbatim>\<open>strings.Index\<close>: the offset of the first occurrence, \<^term>\<open>None\<close> for Go's -1.\<close>

fun Index :: "string \<Rightarrow> string \<Rightarrow> nat option" where
  "Index [] sub = (if sub = [] then Some 0 else None)"
| "Index (c # cs) sub =
     (if HasPrefix (c # cs) sub then Some 0 else map_option Suc (Index cs sub))"

definition Contains :: "string \<Rightarrow> string \<Rightarrow> bool" where
  "Contains s sub = (Index s sub \<noteq> None)"

text \<open>
  \<^verbatim>\<open>strings.SplitN(s, sep, 2)\<close> for a non-empty separator: at most two parts, cut at the
  first occurrence of the separator; one part, the whole string, when there is none.
\<close>

definition SplitN2 :: "string \<Rightarrow> string \<Rightarrow> string list" where
  "SplitN2 s sep =
     (case Index s sep of
        None \<Rightarrow> [s]
      | Some m \<Rightarrow> [take m s, drop (m + length sep) s])"

subsection \<open>strings.TrimSpace\<close>

text \<open>
  \<^verbatim>\<open>strings.TrimSpace\<close> removes every leading and every trailing white-space rune
  (\<^verbatim>\<open>unicode.IsSpace\<close>). On bytes these are the six ASCII characters and the UTF-8
  encodings of U+0085, U+00A0, U+1680, U+2000..U+200A, U+2028, U+2029, U+202F, U+205F
  and U+3000; a byte sequence that is not one of these encodings decodes to a rune that
  is not white space.
\<close>

definition isAsciiSpace :: "char \<Rightarrow> bool" where
  "isAsciiSpace c =
     (c = CHR 0x09 \<or> c = CHR 0x0A \<or> c = CHR 0x0B \<or> c = CHR 0x0C \<or> c = CHR 0x0D \<or> c = CHR 0x20)"

definition twoByteSpaces :: "string list" where
  "twoByteSpaces = [[CHR 0xC2, CHR 0x85], [CHR 0xC2, CHR 0xA0]]"

definition threeByteSpaces :: "string list" where
  "threeByteSpaces =
     [[CHR 0xE1, CHR 0x9A, CHR 0x80],
      [CHR 0xE2, CHR 0x80, CHR 0x80], [CHR 0xE2, CHR 0x80, CHR 0x81],
      [CHR 0xE2, CHR 0x80, CHR 0x82], [CHR 0xE2, CHR 0x80, CHR 0x83],
      [CHR 0xE2, CHR 0x80, CHR 0x84], [CHR 0xE2, CHR 0x80, CHR 0x85],
      [CHR 0xE2, CHR 0x80, CHR 0x86], [CHR 0xE2, CHR 0x80, CHR 0x87],
      [CHR 0xE2, CHR 0x80, CHR 0x88], [CHR 0xE2, CHR 0x80, CHR 0x89],
      [CHR 0xE2, CHR 0x80, CHR 0x8A],
      [CHR 0xE2, CHR 0x80, CHR 0xA8], [CHR 0xE2, CHR 0x80, CHR 0xA9],
      [CHR 0xE2, CHR 0x80, CHR 0xAF], [CHR 0xE2, CHR 0x81, CHR 0x9F],
      [CHR 0xE3, CHR 0x80, CHR 0x80]]"

text \<open>The width in bytes of the white-space rune a string starts with, 0 when it starts with none.\<close>

definition spaceWidth :: "string \<Rightarrow> nat" where
  "spaceWidth s =
     (if s \<noteq> [] \<and> isAsciiSpace (hd s) then 1
      else if take 2 s \<in> set twoByteSpaces then 2
      else if take 3 s \<in> set threeByteSpaces then 3
      else 0)"

text \<open>The same for the rune a string ends with, read on the reversed string.\<close>

definition spaceWidthRev :: "string \<Rightarrow> nat" where
  "spaceWidthRev r =
     (if r \<noteq> [] \<and> isAsciiSpace (hd r) then 1
      else if rev (take 2 r) \<in> set twoByteSpaces then 2
      else if rev (take 3 r) \<in> set threeByteSpaces then 3
      else 0)"

fun dropRunes :: "(string \<Rightarrow> nat) \<Rightarrow> string \<Rightarrow> string" where
  "dropRunes width [] = []"
| "dropRunes width (c # cs) =
     (if width (c # cs) = 0 then c # cs
      else dropRunes width (drop (width (c # cs) - 1) cs))"

definition TrimLeftSpace :: "string \<Rightarrow> string" where
  "TrimLeftSpace s = dropRunes spaceWidth s"

definition TrimRightSpace :: "string \<Rightarrow> string" where
  "TrimRightSpace s = rev (dropRunes spaceWidthRev (rev s))"

definition TrimSpace :: "string \<Rightarrow> string" where
  "TrimSpace s = TrimRightSpace (TrimLeftSpace s)"

subsection \<open>fmt.Sprintf with the verb %d\<close>

fun digits :: "nat \<Rightarrow> string" where
  "digits n = (if n < 10 then [char_of (48 + n)] else digits (n div 10) @ [char_of (48 + n mod 10)])"

definition itoa :: "int \<Rightarrow> string" where
  "itoa i = (if i < 0 then CHR ''-'' # digits (nat (- i)) else digits (nat i))"

section \<open>The package's data\<close>

record ConfigError =
  MissingField :: string

record Config =
  ProjectID :: string
  SecretName :: string
  SecretVersion :: string

record ParseError =
  Line :: string
  LineNum :: int
  Reason :: string

text \<open>
  Go's \<^verbatim>\<open>error\<close> values as the package meets them: its two structs, an error of another
  package (known by its message only), and \<^verbatim>\<open>fmt.Errorf("prefix: %w", err)\<close>, which keeps
  the wrapped error.
\<close>

datatype error =
    ConfigErr ConfigError
  | ParseErr ParseError
  | Foreign string
  | Wrapped string error

definition ConfigError_Error :: "ConfigError \<Rightarrow> string" where
  "ConfigError_Error e = ''missing required environment variable: '' @ MissingField e"

definition ParseError_Error :: "ParseError \<Rightarrow> string" where
  "ParseError_Error e =
     ''invalid format at line '' @ itoa (LineNum e) @ '' ('' @ Line e @ ''): '' @ Reason e"

fun Error :: "error \<Rightarrow> string" where
  "Error (ConfigErr e) = ConfigError_Error e"
| "Error (ParseErr e) = ParseError_Error e"
| "Error (Foreign msg) = msg"
| "Error (Wrapped prefix e) = prefix @ '': '' @ Error e"

subsection \<open>The process environment\<close>

type_synonym environ = "string \<rightharpoonup> string"

text \<open>\<^verbatim>\<open>os.Getenv\<close>: the value, or the empty string when the variable is not set.\<close>

definition Getenv :: "environ \<Rightarrow> string \<Rightarrow> string" where
  "Getenv env key = (case env key of None \<Rightarrow> [] | Some v \<Rightarrow> v)"

text \<open>
  \<^verbatim>\<open>os.Setenv\<close> on Unix: \<^verbatim>\<open>EINVAL\<close> for an empty key, a key holding \<^verbatim>\<open>=\<close> or a NUL byte,
  or a value holding a NUL byte; otherwise the variable is set. The result is the error's
  message, if any, and the environment afterwards.
\<close>

definition Setenv :: "string \<Rightarrow> string \<Rightarrow> environ \<Rightarrow> string option \<times> environ" where
  "Setenv key val env =
     (if key = [] \<or> CHR ''='' \<in> set key \<or> CHR 0x00 \<in> set key \<or> CHR 0x00 \<in> set val
      then (Some ''setenv: invalid argument'', env)
      else (None, env(key \<mapsto> val)))"

subsection \<open>The remote capability\<close>

text \<open>
  The interface \<^verbatim>\<open>secretManagerClient\<close>. A request carries only its \<^verbatim>\<open>Name\<close>; a call ends
  with an error or with a response, read here as its \<^verbatim>\<open>Payload.Data\<close> bytes. The context
  and its ten-second deadline act inside the call: a call that is cancelled or runs out
  of time is one that ends with an error.
\<close>

record secretManagerClient =
  AccessSecretVersion :: "string \<Rightarrow> error + string"
  CloseClient :: "error option"

record Client =
  client :: secretManagerClient
  config :: Config

section \<open>The package's functions\<close>

definition NewConfig :: "environ \<Rightarrow> ConfigError + Config" where
  "NewConfig env =
     (let projectID = Getenv env ''GCP_PROJECT_ID'' in
      if projectID = [] then Inl \<lparr>MissingField = ''GCP_PROJECT_ID''\<rparr>
      else
        let secretName = Getenv env ''SECRET_NAME'' in
        if secretName = [] then Inl \<lparr>MissingField = ''SECRET_NAME''\<rparr>
        else
          let secretVersion = Getenv env ''SECRET_VERSION'';
              secretVersion = (if secretVersion = [] then ''latest'' else secretVersion)
          in Inr \<lparr>ProjectID = projectID, SecretName = secretName,
                   SecretVersion = secretVersion\<rparr>)"

text \<open>\<^verbatim>\<open>NewSecret\<close>, with the outcome of \<^verbatim>\<open>defaultClientFactory(ctx)\<close> as a parameter.\<close>

definition NewSecret :: "(error + secretManagerClient) \<Rightarrow> environ \<Rightarrow> error + Client" where
  "NewSecret factory env =
     (case NewConfig env of
        Inl err \<Rightarrow> Inl (Wrapped ''failed to create config'' (ConfigErr err))
      | Inr cfg \<Rightarrow>
          (case factory of
             Inl err \<Rightarrow> Inl (Wrapped ''failed to create secret manager client'' err)
           | Inr cl \<Rightarrow> Inr \<lparr>client = cl, config = cfg\<rparr>))"

definition secretPath :: "Config \<Rightarrow> string" where
  "secretPath cfg =
     ''projects/'' @ ProjectID cfg @ ''/secrets/'' @ SecretName cfg @ ''/versions/''
       @ SecretVersion cfg"

definition GetSecret :: "Client \<Rightarrow> error + string" where
  "GetSecret c =
     (let name = secretPath (config c) in
      case AccessSecretVersion (client c) name of
        Inl err \<Rightarrow> Inl (Wrapped ''failed to access secret'' err)
      | Inr data \<Rightarrow> Inr data)"

definition Close :: "Client \<Rightarrow> error option" where
  "Close c =
     (case CloseClient (client c) of
        Some err \<Rightarrow> Some (Wrapped ''failed to close secret manager client'' err)
      | None \<Rightarrow> None)"

text \<open>
  \<^verbatim>\<open>parseAndSetEnv\<close>: the error, if any, and the environment afterwards. Its last step
  (the write, and the error built when the write is refused) is \<open>setEnvStep\<close>; the call
  of the logger after a successful write changes neither result and is left out.
\<close>

definition setEnvStep :: "string \<Rightarrow> int \<Rightarrow> string \<Rightarrow> string \<Rightarrow> environ \<Rightarrow> ParseError option \<times> environ" where
  "setEnvStep line lineNum key val env =
     (case Setenv key val env of
        (Some msg, env') \<Rightarrow>
          (Some \<lparr>Line = line, LineNum = lineNum,
                 Reason = ''failed to set environment variable: '' @ msg\<rparr>, env')
      | (None, env') \<Rightarrow> (None, env'))"

definition parseAndSetEnv :: "string \<Rightarrow> int \<Rightarrow> environ \<Rightarrow> ParseError option \<times> environ" where
  "parseAndSetEnv line lineNum env =
     (let parts = SplitN2 line ''='' in
      if length parts \<noteq> 2
      then (Some \<lparr>Line = line, LineNum = lineNum,
                  Reason = ''line must contain exactly one '=' character''\<rparr>, env)
      else
        let key = TrimSpace (parts ! 0); val = TrimSpace (parts ! 1) in
        if key = []
        then (Some \<lparr>Line = line, LineNum = lineNum, Reason = ''empty key is not allowed''\<rparr>, env)
        else if Contains val ''=''
        then
          if 2 < length val \<and> val ! 0 = CHR ''['' \<and> val ! (length val - 1) = CHR '']''
          then setEnvStep line lineNum key (take (length val - 1 - 1) (drop 1 val)) env
          else (Some \<lparr>Line = line, LineNum = lineNum,
                      Reason = ''invalid specific key-value pair''\<rparr>, env)
        else setEnvStep line lineNum key val env)"

subsection \<open>bufio.Scanner over the secret's text\<close>

text \<open>
  \<^verbatim>\<open>newScanner\<close> is \<^verbatim>\<open>bufio.NewScanner\<close> on the text, with the default split function
  \<^verbatim>\<open>ScanLines\<close> and the default buffer: a line ends at a newline, one trailing carriage
  return is dropped, a last line without newline is delivered when it is not empty, and
  a line that does not fit the buffer of \<^verbatim>\<open>MaxScanTokenSize\<close> bytes (65536 bytes seen and
  no newline among them) stops the scanner with \<^verbatim>\<open>ErrTooLong\<close>. The scanner does not
  depend on the environment, so its run is the list of the lines it delivers and whether
  it stopped with the error.
\<close>

definition MaxScanTokenSize :: nat where
  "MaxScanTokenSize = 64 * 1024"

definition ErrTooLong :: error where
  "ErrTooLong = Foreign ''bufio.Scanner: token too long''"

definition dropCR :: "string \<Rightarrow> string" where
  "dropCR data = (if data \<noteq> [] \<and> last data = CHR 0x0D then butlast data else data)"

fun scanFrom :: "string \<Rightarrow> string \<Rightarrow> string list \<times> bool" where
  "scanFrom tok [] = (if tok = [] then ([], False) else ([dropCR tok], False))"
| "scanFrom tok (c # cs) =
     (if c = CHR 0x0A then (case scanFrom [] cs of (ts, tooLong) \<Rightarrow> (dropCR tok # ts, tooLong))
      else if MaxScanTokenSize \<le> length tok + 1 then ([], True)
      else scanFrom (tok @ [c]) cs)"

definition scanLines :: "string \<Rightarrow> string list \<times> bool" where
  "scanLines content = scanFrom [] content"

subsection \<open>LoadSecretToEnv\<close>

text \<open>
  The body of the \<^verbatim>\<open>for scanner.Scan()\<close> loop over the delivered lines; \<open>lineNum\<close> is the
  counter before the line is read.
\<close>

fun loadLines :: "string list \<Rightarrow> int \<Rightarrow> environ \<Rightarrow> error option \<times> environ" where
  "loadLines [] lineNum env = (None, env)"
| "loadLines (text # rest) lineNum env =
     (let lineNum = lineNum + 1; line = TrimSpace text in
      if line = [] then loadLines rest lineNum env
      else
        case parseAndSetEnv line lineNum env of
          (Some err, env') \<Rightarrow>
            (Some (Wrapped ''failed to set environment variable'' (ParseErr err)), env')
        | (None, env') \<Rightarrow> loadLines rest lineNum env')"

definition LoadSecretToEnv :: "Client \<Rightarrow> environ \<Rightarrow> error option \<times> environ" where
  "LoadSecretToEnv c env =
     (case GetSecret c of
        Inl err \<Rightarrow> (Some (Wrapped ''failed to retrieve secret'' err), env)
      | Inr content \<Rightarrow>
          (case scanLines content of
             (lines, tooLong) \<Rightarrow>
               (case loadLines lines 0 env of
                  (Some err, env') \<Rightarrow> (Some err, env')
                | (None, env') \<Rightarrow>
                    if tooLong then (Some (Wrapped ''error reading secret content'' ErrTooLong), env')
                    else (None, env'))))"

text \<open>
  The test double of the package's tests: \<^verbatim>\<open>mockSecretManagerClient\<close> with its two fields,
  inside a client with the empty configuration \<^verbatim>\<open>&Config{}\<close>.
\<close>

definition mockSecretManagerClient :: "string \<Rightarrow> bool \<Rightarrow> secretManagerClient" where
  "mockSecretManagerClient secretPayload isSuccess =
     \<lparr>AccessSecretVersion =
        (\<lambda>name. if isSuccess then Inr secretPayload else Inl (Foreign ''access error'')),
      CloseClient = None\<rparr>"

definition mockClient :: "string \<Rightarrow> bool \<Rightarrow> Client" where
  "mockClient secretPayload isSuccess =
     \<lparr>client = mockSecretManagerClient secretPayload isSuccess,
      config = \<lparr>ProjectID = [], SecretName = [], SecretVersion = []\<rparr>\<rparr>"

section \<open>The specification's reading of a line\<close>

text \<open>
  The loader is compared below with what the specification says of a line, written here
  from the specification's words and without the package's functions. The raw key of a
  line is its text before the first \<open>=\<close>, the raw value everything after that \<open>=\<close>. The
  parsed entry of a line is the pair of the trimmed key and the value to write: there is
  none for a line without \<open>=\<close>, with an empty trimmed key, or with a trimmed value that
  holds a \<open>=\<close> and is not wrapped in one pair of square brackets of length above 2; the
  brackets of a wrapped value with a \<open>=\<close> are stripped, any other value is taken as it
  stands. The environment sink accepts a pair when its write succeeds. A line is well
  formed when it is blank or has an entry that the sink accepts, and applying lines to
  an environment writes the entry of each, in order.
\<close>

definition specRawKey :: "string \<Rightarrow> string" where
  "specRawKey line = takeWhile (\<lambda>c. c \<noteq> CHR ''='') line"

definition specRawValue :: "string \<Rightarrow> string" where
  "specRawValue line = tl (dropWhile (\<lambda>c. c \<noteq> CHR ''='') line)"

definition specEntry :: "string \<Rightarrow> (string \<times> string) option" where
  "specEntry line =
     (if CHR ''='' \<notin> set line then None
      else
        let key = TrimSpace (specRawKey line); val = TrimSpace (specRawValue line) in
        if key = [] then None
        else if CHR ''='' \<in> set val
        then
          if 2 < length val \<and> hd val = CHR ''['' \<and> last val = CHR '']''
          then Some (key, butlast (tl val))
          else None
        else Some (key, val))"

definition sinkAccepts :: "string \<Rightarrow> string \<Rightarrow> bool" where
  "sinkAccepts key val = (fst (Setenv key val Map.empty) = None)"

definition specWellFormed :: "string \<Rightarrow> bool" where
  "specWellFormed text =
     (TrimSpace text = [] \<or>
      (case specEntry (TrimSpace text) of
         None \<Rightarrow> False
       | Some (key, val) \<Rightarrow> sinkAccepts key val))"

fun specApply :: "string list \<Rightarrow> environ \<Rightarrow> environ" where
  "specApply [] env = env"
| "specApply (text # rest) env =
     specApply rest
       (case specEntry (TrimSpace text) of
          None \<Rightarrow> env
        | Some (key, val) \<Rightarrow> env(key \<mapsto> val))"

section \<open>Facts about the library functions\<close>

lemma Index_char:
  "Index s [c] = (if c \<in> set s then Some (length (takeWhile (\<lambda>x. x \<noteq> c) s)) else None)"
  by (induction s) auto

lemma Contains_char: "Contains s [c] = (c \<in> set s)"
  by (simp add: Contains_def Index_char)

lemma SplitN2_char_none: "c \<notin> set s \<Longrightarrow> SplitN2 s [c] = [s]"
  by (simp add: SplitN2_def Index_char)

lemma SplitN2_char_some:
  "c \<in> set s \<Longrightarrow>
   SplitN2 s [c] = [takeWhile (\<lambda>x. x \<noteq> c) s, tl (dropWhile (\<lambda>x. x \<noteq> c) s)]"
  by (simp add: SplitN2_def Index_char takeWhile_eq_take [symmetric] dropWhile_eq_drop drop_Suc tl_drop)

lemma SplitN2_append:
  "c \<notin> set k \<Longrightarrow> SplitN2 (k @ c # v) [c] = [k, v]"
proof -
  assume k: "c \<notin> set k"
  then have "takeWhile (\<lambda>x. x \<noteq> c) (k @ c # v) = k"
    and "dropWhile (\<lambda>x. x \<noteq> c) (k @ c # v) = c # v"
    by (induction k) auto
  then show ?thesis by (simp add: SplitN2_char_some)
qed

lemma SplitN2_two:
  "SplitN2 line [c] = [rawKey, rawValue] \<Longrightarrow> line = rawKey @ c # rawValue"
proof -
  assume sp: "SplitN2 line [c] = [rawKey, rawValue]"
  have in_line: "c \<in> set line"
  proof (rule ccontr)
    assume "c \<notin> set line"
    then show False using sp by (simp add: SplitN2_char_none)
  qed
  with sp have k: "rawKey = takeWhile (\<lambda>x. x \<noteq> c) line"
    and v: "rawValue = tl (dropWhile (\<lambda>x. x \<noteq> c) line)"
    by (simp_all add: SplitN2_char_some)
  from in_line have "dropWhile (\<lambda>x. x \<noteq> c) line \<noteq> []" by simp
  moreover from in_line have "hd (dropWhile (\<lambda>x. x \<noteq> c) line) = c"
    using hd_dropWhile [of "\<lambda>x. x \<noteq> c" line] by auto
  ultimately have "dropWhile (\<lambda>x. x \<noteq> c) line = c # rawValue"
    using v by (cases "dropWhile (\<lambda>x. x \<noteq> c) line") auto
  then show ?thesis
    using k takeWhile_dropWhile_id [of "\<lambda>x. x \<noteq> c" line] by simp
qed

lemma HasPrefix_append: "HasPrefix (p @ s) p"
  by (induction p) auto

lemma Index_HasPrefix: "HasPrefix s p \<Longrightarrow> Index s p = Some 0"
  by (cases s; cases p) auto

lemma Contains_prefix: "Contains (p @ s) p"
  by (simp add: Contains_def Index_HasPrefix HasPrefix_append)

lemma set_dropRunes: "set (dropRunes w s) \<subseteq> set s"
proof (induction w s rule: dropRunes.induct)
  case (1 w)
  show ?case by simp
next
  case (2 w c cs)
  show ?case
  proof (cases "w (c # cs) = 0")
    case True
    then show ?thesis by simp
  next
    case False
    with 2 have "set (dropRunes w (drop (w (c # cs) - 1) cs)) \<subseteq> set (drop (w (c # cs) - 1) cs)"
      by simp
    also have "\<dots> \<subseteq> set cs" by (rule set_drop_subset)
    finally show ?thesis using False by auto
  qed
qed

lemma set_TrimSpace: "set (TrimSpace s) \<subseteq> set s"
proof -
  have "set (TrimRightSpace t) \<subseteq> set t" for t
    using set_dropRunes [of spaceWidthRev "rev t"] by (simp add: TrimRightSpace_def)
  moreover have "set (TrimLeftSpace s) \<subseteq> set s"
    by (simp add: TrimLeftSpace_def set_dropRunes)
  ultimately show ?thesis unfolding TrimSpace_def by blast
qed

lemma TrimSpace_bracketed: "TrimSpace (CHR ''['' # inner @ '']'') = CHR ''['' # inner @ '']''"
proof -
  have l: "TrimLeftSpace (CHR ''['' # xs) = CHR ''['' # xs" for xs
    by (simp add: TrimLeftSpace_def spaceWidth_def isAsciiSpace_def twoByteSpaces_def
        threeByteSpaces_def)
  have "spaceWidthRev (CHR '']'' # ys) = 0" for ys
    by (cases ys; cases "tl ys")
      (auto simp: spaceWidthRev_def isAsciiSpace_def twoByteSpaces_def
        threeByteSpaces_def)
  then have "dropRunes spaceWidthRev (CHR '']'' # ys) = CHR '']'' # ys" for ys
    by simp
  then have r: "TrimRightSpace (xs @ '']'') = xs @ '']''" for xs
    by (simp add: TrimRightSpace_def)
  show ?thesis
    using r [of "CHR ''['' # inner"] by (simp add: TrimSpace_def l)
qed

lemma dropRunes_spaces: "dropRunes spaceWidth (replicate n CHR '' '') = []"
  by (induction n) (simp_all add: spaceWidth_def isAsciiSpace_def)

lemma TrimSpace_spaces: "TrimSpace (replicate n CHR '' '') = []"
  by (simp add: TrimSpace_def TrimLeftSpace_def TrimRightSpace_def dropRunes_spaces)

lemma TrimSpace_xs: "TrimSpace (replicate n CHR ''x'') = replicate n CHR ''x''"
proof (cases n)
  case 0
  then show ?thesis
    by (simp add: TrimSpace_def TrimLeftSpace_def TrimRightSpace_def)
next
  case (Suc m)
  have l: "spaceWidth (CHR ''x'' # r) = 0" for r
    by (simp add: spaceWidth_def isAsciiSpace_def twoByteSpaces_def threeByteSpaces_def)
  have r: "spaceWidthRev (CHR ''x'' # r) = 0" for r
    by (cases r; cases "tl r")
      (auto simp: spaceWidthRev_def isAsciiSpace_def twoByteSpaces_def threeByteSpaces_def)
  have e: "replicate n CHR ''x'' = CHR ''x'' # replicate m CHR ''x''" using Suc by simp
  have a: "TrimLeftSpace (replicate n CHR ''x'') = replicate n CHR ''x''"
    by (simp add: e TrimLeftSpace_def l)
  have "dropRunes spaceWidthRev (replicate n CHR ''x'') = replicate n CHR ''x''"
    by (simp add: e r)
  then have b: "TrimRightSpace (replicate n CHR ''x'') = replicate n CHR ''x''"
    by (simp add: TrimRightSpace_def)
  show ?thesis by (simp add: TrimSpace_def a b)
qed

lemma scanFrom_line:
  "CHR 0x0A \<notin> set t \<Longrightarrow> length tok + length t < MaxScanTokenSize \<Longrightarrow>
   scanFrom tok (t @ CHR 0x0A # after) =
     (dropCR (tok @ t) # fst (scanFrom [] after), snd (scanFrom [] after))"
  by (induction t arbitrary: tok) (auto split: prod.splits)

lemma scanFrom_too_long:
  "CHR 0x0A \<notin> set s \<Longrightarrow> s \<noteq> [] \<Longrightarrow> MaxScanTokenSize \<le> length tok + length s \<Longrightarrow>
   scanFrom tok s = ([], True)"
proof (induction s arbitrary: tok)
  case Nil
  then show ?case by simp
next
  case (Cons c cs)
  show ?case
  proof (cases "MaxScanTokenSize \<le> length tok + 1")
    case True
    with Cons.prems show ?thesis by auto
  next
    case False
    with Cons.prems have ne: "cs \<noteq> []" by auto
    have len: "MaxScanTokenSize \<le> length (tok @ [c]) + length cs"
      using Cons.prems by simp
    have nl: "CHR 0x0A \<notin> set cs" using Cons.prems by simp
    have "scanFrom (tok @ [c]) cs = ([], True)" by (rule Cons.IH [OF nl ne len])
    with False Cons.prems show ?thesis by auto
  qed
qed

lemma scanFrom_joined:
  "list_all (\<lambda>l. CHR 0x0A \<notin> set l \<and> length l < MaxScanTokenSize) ls \<Longrightarrow>
   scanFrom [] (concat (map (\<lambda>l. l @ [CHR 0x0A]) ls) @ rest) =
     (map dropCR ls @ fst (scanFrom [] rest), snd (scanFrom [] rest))"
proof (induction ls)
  case Nil
  show ?case by simp
next
  case (Cons l ls)
  then have l: "CHR 0x0A \<notin> set l" "length [] + length l < MaxScanTokenSize" by simp_all
  from Cons have "scanFrom [] (concat (map (\<lambda>l. l @ [CHR 0x0A]) ls) @ rest) =
     (map dropCR ls @ fst (scanFrom [] rest), snd (scanFrom [] rest))" by simp
  with scanFrom_line [OF l, of "concat (map (\<lambda>l. l @ [CHR 0x0A]) ls) @ rest"]
  show ?case by simp
qed

lemma scanLines_delivers:
  "list_all (\<lambda>l. CHR 0x0A \<notin> set l \<and> length l < MaxScanTokenSize) ls \<Longrightarrow>
   scanLines (concat (map (\<lambda>l. l @ [CHR 0x0A]) ls) @ after) =
     (map dropCR ls @ fst (scanLines after), snd (scanLines after))"
  by (simp add: scanLines_def scanFrom_joined)

section \<open>Facts about the parser\<close>

lemma setEnvStep_cases:
  "setEnvStep line n key val env =
     (if key = [] \<or> CHR ''='' \<in> set key \<or> CHR 0x00 \<in> set key \<or> CHR 0x00 \<in> set val
      then (Some \<lparr>Line = line, LineNum = n,
                   Reason = ''failed to set environment variable: setenv: invalid argument''\<rparr>, env)
      else (None, env(key \<mapsto> val)))"
  by (simp add: setEnvStep_def Setenv_def)

text \<open>The key cut off before the first separator never holds the separator.\<close>

lemma key_no_sep:
  "SplitN2 line [c] = [rawKey, rawValue] \<Longrightarrow> c \<notin> set (TrimSpace rawKey)"
proof -
  assume sp: "SplitN2 line [c] = [rawKey, rawValue]"
  have "c \<in> set line"
  proof (rule ccontr)
    assume "c \<notin> set line"
    then show False using sp by (simp add: SplitN2_char_none)
  qed
  with sp have "rawKey = takeWhile (\<lambda>x. x \<noteq> c) line"
    by (simp add: SplitN2_char_some)
  then have "c \<notin> set rawKey"
    by (auto dest: set_takeWhileD)
  then show ?thesis using set_TrimSpace [of rawKey] by blast
qed

lemma wrapped_nth:
  "(2 < length v \<and> v ! 0 = a \<and> v ! (length v - 1) = b) = (2 < length v \<and> hd v = a \<and> last v = b)"
  by (cases v) (auto simp: last_conv_nth)

lemma strip_slice: "take (length v - 1 - 1) (drop 1 v) = butlast (tl v)"
  by (simp add: butlast_conv_take drop_Suc)

lemma strip_brackets: "2 < length v \<Longrightarrow> hd v = a \<Longrightarrow> last v = b \<Longrightarrow> v = a # butlast (tl v) @ [b]"
proof -
  assume l: "2 < length v" and h: "hd v = a" and t: "last v = b"
  from l obtain x xs where v: "v = x # xs" by (cases v) auto
  with l have "xs \<noteq> []" by auto
  then have "xs = butlast xs @ [last xs]" by simp
  with v h t show ?thesis by auto
qed

lemma parse_split:
  "SplitN2 line ''='' = [rawKey, rawValue] \<Longrightarrow> TrimSpace rawKey \<noteq> [] \<Longrightarrow>
   parseAndSetEnv line n env =
     (let key = TrimSpace rawKey; val = TrimSpace rawValue in
      if CHR ''='' \<in> set val
      then
        if 2 < length val \<and> hd val = CHR ''['' \<and> last val = CHR '']''
        then setEnvStep line n key (butlast (tl val)) env
        else (Some \<lparr>Line = line, LineNum = n, Reason = ''invalid specific key-value pair''\<rparr>, env)
      else setEnvStep line n key val env)"
  by (simp only: parseAndSetEnv_def Let_def Contains_char wrapped_nth strip_slice) simp

lemma parse_no_sep:
  "CHR ''='' \<notin> set line \<Longrightarrow>
   parseAndSetEnv line n env =
     (Some \<lparr>Line = line, LineNum = n,
            Reason = ''line must contain exactly one '=' character''\<rparr>, env)"
  by (simp add: parseAndSetEnv_def SplitN2_char_none)

lemma parse_empty_key:
  "SplitN2 line ''='' = [rawKey, rawValue] \<Longrightarrow> TrimSpace rawKey = [] \<Longrightarrow>
   parseAndSetEnv line n env =
     (Some \<lparr>Line = line, LineNum = n, Reason = ''empty key is not allowed''\<rparr>, env)"
  by (simp add: parseAndSetEnv_def)

lemma parse_plain:
  assumes sp: "SplitN2 line ''='' = [rawKey, rawValue]"
    and noeq: "CHR ''='' \<notin> set (TrimSpace rawValue)"
  shows "parseAndSetEnv line n env =
     (if TrimSpace rawKey = []
      then (Some \<lparr>Line = line, LineNum = n, Reason = ''empty key is not allowed''\<rparr>, env)
      else if CHR 0x00 \<in> set (TrimSpace rawKey) \<or> CHR 0x00 \<in> set (TrimSpace rawValue)
      then (Some \<lparr>Line = line, LineNum = n,
                  Reason = ''failed to set environment variable: setenv: invalid argument''\<rparr>, env)
      else (None, env(TrimSpace rawKey \<mapsto> TrimSpace rawValue)))"
proof (cases "TrimSpace rawKey = []")
  case True
  then show ?thesis using sp by (simp add: parse_empty_key)
next
  case False
  have "CHR ''='' \<notin> set (TrimSpace rawKey)" using sp by (rule key_no_sep)
  then show ?thesis
    using False noeq by (simp add: parse_split [OF sp False] setEnvStep_cases)
qed

lemma parse_bracketed:
  assumes sp: "SplitN2 line ''='' = [rawKey, rawValue]"
    and key: "TrimSpace rawKey \<noteq> []"
    and eq: "CHR ''='' \<in> set (TrimSpace rawValue)"
  shows "parseAndSetEnv line n env =
     (if 2 < length (TrimSpace rawValue) \<and> hd (TrimSpace rawValue) = CHR ''[''
           \<and> last (TrimSpace rawValue) = CHR '']''
      then
        if CHR 0x00 \<in> set (TrimSpace rawKey) \<or> CHR 0x00 \<in> set (butlast (tl (TrimSpace rawValue)))
        then (Some \<lparr>Line = line, LineNum = n,
                    Reason = ''failed to set environment variable: setenv: invalid argument''\<rparr>, env)
        else (None, env(TrimSpace rawKey \<mapsto> butlast (tl (TrimSpace rawValue))))
      else (Some \<lparr>Line = line, LineNum = n, Reason = ''invalid specific key-value pair''\<rparr>, env))"
proof -
  have "CHR ''='' \<notin> set (TrimSpace rawKey)" using sp by (rule key_no_sep)
  then show ?thesis
    using key eq by (simp add: parse_split [OF sp key] setEnvStep_cases Let_def)
qed

lemma parse_error_fields:
  "parseAndSetEnv line n env = (Some pe, env') \<Longrightarrow> Line pe = line \<and> LineNum pe = n \<and> env' = env"
  by (auto simp: parseAndSetEnv_def setEnvStep_def Setenv_def Let_def split: if_splits)

lemma split_raw:
  "CHR ''='' \<in> set line \<Longrightarrow> SplitN2 line ''='' = [specRawKey line, specRawValue line]"
  by (simp add: specRawKey_def specRawValue_def SplitN2_char_some)

lemma parse_total:
  assumes "CHR ''='' \<in> set line"
  shows "parseAndSetEnv line n env =
     (if TrimSpace (specRawKey line) = []
      then (Some \<lparr>Line = line, LineNum = n, Reason = ''empty key is not allowed''\<rparr>, env)
      else if CHR ''='' \<in> set (TrimSpace (specRawValue line))
      then
        if 2 < length (TrimSpace (specRawValue line)) \<and> hd (TrimSpace (specRawValue line)) = CHR ''[''
           \<and> last (TrimSpace (specRawValue line)) = CHR '']''
        then
          if CHR 0x00 \<in> set (TrimSpace (specRawKey line))
             \<or> CHR 0x00 \<in> set (butlast (tl (TrimSpace (specRawValue line))))
          then (Some \<lparr>Line = line, LineNum = n,
                      Reason = ''failed to set environment variable: setenv: invalid argument''\<rparr>, env)
          else (None, env(TrimSpace (specRawKey line) \<mapsto> butlast (tl (TrimSpace (specRawValue line)))))
        else (Some \<lparr>Line = line, LineNum = n, Reason = ''invalid specific key-value pair''\<rparr>, env)
      else if CHR 0x00 \<in> set (TrimSpace (specRawKey line))
              \<or> CHR 0x00 \<in> set (TrimSpace (specRawValue line))
      then (Some \<lparr>Line = line, LineNum = n,
                  Reason = ''failed to set environment variable: setenv: invalid argument''\<rparr>, env)
      else (None, env(TrimSpace (specRawKey line) \<mapsto> TrimSpace (specRawValue line))))"
proof -
  note sp = split_raw [OF assms]
  show ?thesis
  proof (cases "TrimSpace (specRawKey line) = []")
    case True
    then show ?thesis by (simp add: parse_empty_key [OF sp])
  next
    case key: False
    show ?thesis
    proof (cases "CHR ''='' \<in> set (TrimSpace (specRawValue line))")
      case True
      with key show ?thesis by (simp add: parse_bracketed [OF sp key True])
    next
      case False
      with key show ?thesis by (simp add: parse_plain [OF sp False])
    qed
  qed
qed

lemma sinkAccepts_iff:
  "sinkAccepts key val =
     (key \<noteq> [] \<and> CHR ''='' \<notin> set key \<and> CHR 0x00 \<notin> set key \<and> CHR 0x00 \<notin> set val)"
  by (simp add: sinkAccepts_def Setenv_def)

lemma specEntry_key:
  "specEntry line = Some (key, val) \<Longrightarrow> key \<noteq> [] \<and> CHR ''='' \<notin> set key"
proof -
  assume e: "specEntry line = Some (key, val)"
  then have in_line: "CHR ''='' \<in> set line" by (auto simp: specEntry_def split: if_splits)
  from e have k: "key = TrimSpace (specRawKey line)" and ne: "key \<noteq> []"
    by (auto simp: specEntry_def Let_def split: if_splits)
  from key_no_sep [OF split_raw [OF in_line]] k ne show ?thesis by simp
qed

lemma parse_spec_ok:
  assumes e: "specEntry line = Some (key, val)" and a: "sinkAccepts key val"
  shows "parseAndSetEnv line n env = (None, env(key \<mapsto> val))"
proof -
  from e have in_line: "CHR ''='' \<in> set line" by (auto simp: specEntry_def split: if_splits)
  from a have nul: "CHR 0x00 \<notin> set key" "CHR 0x00 \<notin> set val" by (simp_all add: sinkAccepts_iff)
  from e in_line have
    "TrimSpace (specRawKey line) = key \<and> key \<noteq> [] \<and>
     (if CHR ''='' \<in> set (TrimSpace (specRawValue line))
      then 2 < length (TrimSpace (specRawValue line)) \<and> hd (TrimSpace (specRawValue line)) = CHR ''[''
           \<and> last (TrimSpace (specRawValue line)) = CHR '']''
           \<and> val = butlast (tl (TrimSpace (specRawValue line)))
      else val = TrimSpace (specRawValue line))"
    by (simp add: specEntry_def Let_def split: if_splits)
  with nul show ?thesis
    by (simp add: parse_total [OF in_line] split: if_splits)
qed

lemma parse_spec_bad:
  assumes "case specEntry line of None \<Rightarrow> True | Some (key, val) \<Rightarrow> \<not> sinkAccepts key val"
  shows "\<exists>pe. parseAndSetEnv line n env = (Some pe, env)"
proof (cases "CHR ''='' \<in> set line")
  case False
  then show ?thesis by (simp add: parse_no_sep)
next
  case True
  show ?thesis
  proof (cases "specEntry line")
    case None
    with True have
      "TrimSpace (specRawKey line) = [] \<or>
       (CHR ''='' \<in> set (TrimSpace (specRawValue line)) \<and>
        \<not> (2 < length (TrimSpace (specRawValue line)) \<and> hd (TrimSpace (specRawValue line)) = CHR ''[''
           \<and> last (TrimSpace (specRawValue line)) = CHR '']''))"
      by (simp add: specEntry_def Let_def split: if_splits)
    then show ?thesis
      by (auto simp: parse_total [OF True])
  next
    case (Some kv)
    obtain key val where kv: "kv = (key, val)" by (cases kv)
    with Some assms have na: "\<not> sinkAccepts key val" by simp
    from specEntry_key Some kv have "key \<noteq> [] \<and> CHR ''='' \<notin> set key" by simp
    with na have "CHR 0x00 \<in> set key \<or> CHR 0x00 \<in> set val" by (simp add: sinkAccepts_iff)
    moreover from Some kv True have
      "TrimSpace (specRawKey line) = key \<and> key \<noteq> [] \<and>
       (if CHR ''='' \<in> set (TrimSpace (specRawValue line))
        then 2 < length (TrimSpace (specRawValue line)) \<and> hd (TrimSpace (specRawValue line)) = CHR ''[''
           \<and> last (TrimSpace (specRawValue line)) = CHR '']''
           \<and> val = butlast (tl (TrimSpace (specRawValue line)))
        else val = TrimSpace (specRawValue line))"
      by (simp add: specEntry_def Let_def split: if_splits)
    ultimately show ?thesis
      by (auto simp: parse_total [OF True] split: if_splits)
  qed
qed

lemma specEntry_blank: "specEntry [] = None"
  by (simp add: specEntry_def)

lemma malformed_refused:
  assumes "\<not> specWellFormed bad"
  shows "TrimSpace bad \<noteq> [] \<and> (\<exists>pe. parseAndSetEnv (TrimSpace bad) n env = (Some pe, env))"
proof -
  from assms have nb: "TrimSpace bad \<noteq> []" by (simp add: specWellFormed_def)
  from assms have
    "case specEntry (TrimSpace bad) of None \<Rightarrow> True | Some (key, val) \<Rightarrow> \<not> sinkAccepts key val"
    by (auto simp: specWellFormed_def split: option.splits)
  from parse_spec_bad [OF this] nb show ?thesis by simp
qed

section \<open>Facts about the loader\<close>

lemma loadLines_blank_prefix:
  "list_all (\<lambda>t. TrimSpace t = []) pre \<Longrightarrow>
   loadLines (pre @ ts) n env = loadLines ts (n + int (length pre)) env"
  by (induction pre arbitrary: n) (simp_all add: Let_def add.assoc)

lemma loadLines_all_blank:
  "list_all (\<lambda>t. TrimSpace t = []) lines \<Longrightarrow> loadLines lines n env = (None, env)"
  using loadLines_blank_prefix [of lines "[]" n env] by simp

lemma loadLines_append:
  "loadLines pre n env = (None, env1) \<Longrightarrow>
   loadLines (pre @ rest) n env = loadLines rest (n + int (length pre)) env1"
proof (induction pre arbitrary: n env)
  case Nil
  then show ?case by simp
next
  case (Cons t pre)
  show ?case
  proof (cases "TrimSpace t = []")
    case True
    with Cons.prems have "loadLines pre (n + 1) env = (None, env1)" by (simp add: Let_def)
    from Cons.IH [OF this] True show ?thesis by (simp add: Let_def add.assoc)
  next
    case False
    obtain r e where p: "parseAndSetEnv (TrimSpace t) (n + 1) env = (r, e)"
      by (cases "parseAndSetEnv (TrimSpace t) (n + 1) env")
    show ?thesis
    proof (cases r)
      case None
      with Cons.prems False p have "loadLines pre (n + 1) e = (None, env1)"
        by (simp add: Let_def)
      from Cons.IH [OF this] False p None show ?thesis by (simp add: Let_def add.assoc)
    next
      case (Some err)
      with Cons.prems False p show ?thesis by (simp add: Let_def)
    qed
  qed
qed

lemma loadLines_stops:
  assumes pre: "loadLines pre n env = (None, env1)"
    and nonblank: "TrimSpace bad \<noteq> []"
    and bad: "parseAndSetEnv (TrimSpace bad) (n + int (length pre) + 1) env1 = (Some pe, env2)"
  shows "loadLines (pre @ bad # post) n env =
     (Some (Wrapped ''failed to set environment variable'' (ParseErr pe)), env1)"
proof -
  have "env2 = env1" using parse_error_fields [OF bad] by simp
  then show ?thesis
    using nonblank bad by (simp add: loadLines_append [OF pre] Let_def)
qed

lemma parse_lineNum:
  "snd (parseAndSetEnv line n env) = snd (parseAndSetEnv line m env)
   \<and> (fst (parseAndSetEnv line n env) = None) = (fst (parseAndSetEnv line m env) = None)"
  by (simp add: parseAndSetEnv_def setEnvStep_def Setenv_def Let_def)

lemma loadLines_lineNum:
  "snd (loadLines lines n env) = snd (loadLines lines m env)
   \<and> (fst (loadLines lines n env) = None) = (fst (loadLines lines m env) = None)"
proof (induction lines arbitrary: n m env)
  case Nil
  show ?case by simp
next
  case (Cons t lines)
  show ?case
  proof (cases "TrimSpace t = []")
    case True
    then show ?thesis using Cons.IH [of "n + 1" env "m + 1"] by (simp add: Let_def)
  next
    case False
    obtain r e where pn: "parseAndSetEnv (TrimSpace t) (n + 1) env = (r, e)"
      by (cases "parseAndSetEnv (TrimSpace t) (n + 1) env")
    obtain r' e' where pm: "parseAndSetEnv (TrimSpace t) (m + 1) env = (r', e')"
      by (cases "parseAndSetEnv (TrimSpace t) (m + 1) env")
    from parse_lineNum [of "TrimSpace t" "n + 1" env "m + 1"] pn pm
    have same: "e = e'" "(r = None) = (r' = None)" by simp_all
    show ?thesis
    proof (cases r)
      case None
      with same have "r' = None" by simp
      with None same False pn pm Cons.IH [of "n + 1" e "m + 1"] show ?thesis
        by (simp add: Let_def)
    next
      case (Some err)
      with same obtain err' where "r' = Some err'" by (cases r') auto
      with Some same False pn pm show ?thesis by (simp add: Let_def)
    qed
  qed
qed

lemma loadLines_prefix_fails:
  "loadLines pre n env = (Some err, env1) \<Longrightarrow> loadLines (pre @ rest) n env = (Some err, env1)"
proof (induction pre arbitrary: n env)
  case Nil
  then show ?case by simp
next
  case (Cons t pre)
  show ?case
  proof (cases "TrimSpace t = []")
    case True
    with Cons.prems have "loadLines pre (n + 1) env = (Some err, env1)" by (simp add: Let_def)
    from Cons.IH [OF this] True show ?thesis by (simp add: Let_def)
  next
    case False
    obtain r e where p: "parseAndSetEnv (TrimSpace t) (n + 1) env = (r, e)"
      by (cases "parseAndSetEnv (TrimSpace t) (n + 1) env")
    show ?thesis
    proof (cases r)
      case None
      with Cons.prems False p have "loadLines pre (n + 1) e = (Some err, env1)"
        by (simp add: Let_def)
      from Cons.IH [OF this] False p None show ?thesis by (simp add: Let_def)
    next
      case (Some perr)
      with Cons.prems False p show ?thesis by (simp add: Let_def)
    qed
  qed
qed

lemma blank_line_frame:
  assumes "TrimSpace t = []"
  shows "snd (loadLines (pre @ t # rest) n env) = snd (loadLines (pre @ rest) n env)
   \<and> (fst (loadLines (pre @ t # rest) n env) = None) = (fst (loadLines (pre @ rest) n env) = None)"
proof -
  obtain r env1 where p: "loadLines pre n env = (r, env1)"
    by (cases "loadLines pre n env")
  show ?thesis
  proof (cases r)
    case None
    with p have a: "loadLines (pre @ t # rest) n env = loadLines (t # rest) (n + int (length pre)) env1"
      and b: "loadLines (pre @ rest) n env = loadLines rest (n + int (length pre)) env1"
      by (simp_all add: loadLines_append)
    have "loadLines (t # rest) (n + int (length pre)) env1
        = loadLines rest (n + int (length pre) + 1) env1"
      using assms by (simp add: Let_def)
    with a b loadLines_lineNum [of rest "n + int (length pre) + 1" env1 "n + int (length pre)"]
    show ?thesis by simp
  next
    case (Some err)
    with p show ?thesis by (simp add: loadLines_prefix_fails)
  qed
qed

lemma loadLines_spec:
  "list_all specWellFormed pre \<Longrightarrow> loadLines pre n env = (None, specApply pre env)"
proof (induction pre arbitrary: n env)
  case Nil
  show ?case by simp
next
  case (Cons t pre)
  then have wf: "specWellFormed t" and rest: "list_all specWellFormed pre" by simp_all
  show ?case
  proof (cases "TrimSpace t = []")
    case True
    then show ?thesis using Cons.IH [OF rest] by (simp add: Let_def specEntry_blank)
  next
    case False
    with wf obtain key val where e: "specEntry (TrimSpace t) = Some (key, val)"
      and a: "sinkAccepts key val"
      by (auto simp: specWellFormed_def split: option.splits)
    from False e parse_spec_ok [OF e a] show ?thesis
      using Cons.IH [OF rest] by (simp add: Let_def)
  qed
qed

lemma LoadSecretToEnv_fetched:
  "AccessSecretVersion (client c) (secretPath (config c)) = Inr content \<Longrightarrow>
   scanLines content = (lines, tooLong) \<Longrightarrow>
   LoadSecretToEnv c env =
     (case loadLines lines 0 env of
        (Some err, env') \<Rightarrow> (Some err, env')
      | (None, env') \<Rightarrow>
          if tooLong then (Some (Wrapped ''error reading secret content'' ErrTooLong), env')
          else (None, env'))"
  by (simp add: LoadSecretToEnv_def GetSecret_def)

lemma mockClient_fetch:
  "AccessSecretVersion (client (mockClient payload True)) (secretPath (config (mockClient payload True)))
     = Inr payload"
  by (simp add: mockClient_def mockSecretManagerClient_def)

lemma load_two_equals:
  assumes "AccessSecretVersion (client c) (secretPath (config c)) = Inr ''FOO=bar=baz''"
  shows "LoadSecretToEnv c env =
     (Some (Wrapped ''failed to set environment variable''
        (ParseErr \<lparr>Line = ''FOO=bar=baz'', LineNum = 1,
           Reason = ''invalid specific key-value pair''\<rparr>)), env)"
proof -
  have s: "scanLines ''FOO=bar=baz'' = ([''FOO=bar=baz''], False)"
    by (simp add: scanLines_def MaxScanTokenSize_def dropCR_def)
  have t: "TrimSpace ''FOO=bar=baz'' = ''FOO=bar=baz''" by code_simp
  have sp: "SplitN2 ''FOO=bar=baz'' ''='' = [''FOO'', ''bar=baz'']" by code_simp
  have k: "TrimSpace ''FOO'' = ''FOO''" by code_simp
  have v: "TrimSpace ''bar=baz'' = ''bar=baz''" by code_simp
  have p: "parseAndSetEnv ''FOO=bar=baz'' 1 env =
      (Some \<lparr>Line = ''FOO=bar=baz'', LineNum = 1, Reason = ''invalid specific key-value pair''\<rparr>, env)"
    using parse_bracketed [OF sp, of 1 env] by (simp add: k v)
  show ?thesis
    by (simp add: LoadSecretToEnv_fetched [OF assms s] Let_def t p)
qed

lemma load_long_blank:
  assumes "MaxScanTokenSize \<le> n"
  shows "LoadSecretToEnv (mockClient (replicate n CHR '' '') True) env =
     (Some (Wrapped ''error reading secret content'' ErrTooLong), env)"
proof -
  have "0 < MaxScanTokenSize" by (simp add: MaxScanTokenSize_def)
  with assms have ne: "replicate n CHR '' '' \<noteq> []" by auto
  have "scanFrom [] (replicate n CHR '' '') = ([], True)"
    using assms ne by (intro scanFrom_too_long) simp_all
  then have s: "scanLines (replicate n CHR '' '') = ([], True)" by (simp add: scanLines_def)
  show ?thesis
    by (simp add: LoadSecretToEnv_fetched [OF mockClient_fetch s])
qed

lemma load_stops_at_malformed:
  assumes f: "AccessSecretVersion (client c) (secretPath (config c)) = Inr content"
    and s: "scanLines content = (pre @ bad # post, tooLong)"
    and wf: "list_all specWellFormed pre"
    and bad: "\<not> specWellFormed bad"
  shows "snd (LoadSecretToEnv c env) = specApply pre env
     \<and> (\<exists>pe. fst (LoadSecretToEnv c env)
              = Some (Wrapped ''failed to set environment variable'' (ParseErr pe))
            \<and> LineNum pe = int (length pre) + 1 \<and> Line pe = TrimSpace bad)"
proof -
  have pre: "loadLines pre 0 env = (None, specApply pre env)"
    using wf by (rule loadLines_spec)
  from malformed_refused [OF bad, of "int (length pre) + 1" "specApply pre env"]
  obtain pe where nb: "TrimSpace bad \<noteq> []"
    and p: "parseAndSetEnv (TrimSpace bad) (0 + int (length pre) + 1) (specApply pre env)
              = (Some pe, specApply pre env)"
    by auto
  have "loadLines (pre @ bad # post) 0 env =
     (Some (Wrapped ''failed to set environment variable'' (ParseErr pe)), specApply pre env)"
    using pre nb p by (rule loadLines_stops)
  then have "LoadSecretToEnv c env =
     (Some (Wrapped ''failed to set environment variable'' (ParseErr pe)), specApply pre env)"
    by (simp add: LoadSecretToEnv_fetched [OF f s])
  with parse_error_fields [OF p] show ?thesis by simp
qed

lemma load_line_then_long:
  assumes "MaxScanTokenSize \<le> n"
  shows "LoadSecretToEnv (mockClient (''A=1'' @ CHR 0x0A # replicate n CHR ''x'') True) env =
     (Some (Wrapped ''error reading secret content'' ErrTooLong), env(''A'' \<mapsto> ''1''))"
proof -
  have "0 < MaxScanTokenSize" by (simp add: MaxScanTokenSize_def)
  with assms have ne: "replicate n CHR ''x'' \<noteq> []" by auto
  have long: "scanFrom [] (replicate n CHR ''x'') = ([], True)"
    using assms ne by (intro scanFrom_too_long) simp_all
  have "scanFrom [] (''A=1'' @ CHR 0x0A # replicate n CHR ''x'') =
      (dropCR ([] @ ''A=1'') # fst (scanFrom [] (replicate n CHR ''x'')),
       snd (scanFrom [] (replicate n CHR ''x'')))"
    by (rule scanFrom_line) (simp_all add: MaxScanTokenSize_def)
  then have s: "scanLines (''A=1'' @ CHR 0x0A # replicate n CHR ''x'') = ([''A=1''], True)"
    by (simp add: scanLines_def long dropCR_def)
  have t1: "TrimSpace ''A=1'' = ''A=1''" by code_simp
  have e1: "specEntry ''A=1'' = Some (''A'', ''1'')" by code_simp
  have p: "parseAndSetEnv ''A=1'' 1 env = (None, env(''A'' \<mapsto> ''1''))"
    by (rule parse_spec_ok [OF e1]) (simp add: sinkAccepts_iff)
  show ?thesis
    using LoadSecretToEnv_fetched [OF mockClient_fetch s, of env]
    by (simp add: Let_def t1 p)
qed

section \<open>The line parser\<close>

text \<open>
  C4. A line without \<open>=\<close> is refused by \<open>parseAndSetEnv\<close> with a \<open>ParseError\<close> that carries
  the line, the line number it was given and the reason "line must contain exactly one '='
  character", and the environment is left as it was. The number the loader gives is
  1-based: after any number of blank lines, the line at position \<open>length pre + 1\<close> is
  reported under that number. A line with a \<open>=\<close> is cut at the first one only: the line is
  its raw key, a \<open>=\<close> and its raw value, the raw key holds no \<open>=\<close>, and what
  \<open>parseAndSetEnv\<close> returns is determined by these two parts, trimmed, in every case (empty
  key, bracketed value, unbracketed value with a \<open>=\<close>, plain value, refusal by the
  environment).
\<close>

theorem C4_missing_separator:
  "(CHR ''='' \<notin> set line \<longrightarrow>
      parseAndSetEnv line n env =
        (Some \<lparr>Line = line, LineNum = n,
               Reason = ''line must contain exactly one '=' character''\<rparr>, env))
   \<and> (list_all (\<lambda>t. TrimSpace t = []) pre \<and> TrimSpace text \<noteq> [] \<and> CHR ''='' \<notin> set (TrimSpace text) \<longrightarrow>
      loadLines (pre @ text # rest) 0 env =
        (Some (Wrapped ''failed to set environment variable''
           (ParseErr \<lparr>Line = TrimSpace text, LineNum = int (length pre) + 1,
               Reason = ''line must contain exactly one '=' character''\<rparr>)), env))
   \<and> (CHR ''='' \<in> set line \<longrightarrow>
      line = specRawKey line @ ''='' @ specRawValue line
      \<and> CHR ''='' \<notin> set (specRawKey line)
      \<and> parseAndSetEnv line n env =
         (if TrimSpace (specRawKey line) = []
          then (Some \<lparr>Line = line, LineNum = n, Reason = ''empty key is not allowed''\<rparr>, env)
          else if CHR ''='' \<in> set (TrimSpace (specRawValue line))
          then
            if 2 < length (TrimSpace (specRawValue line))
               \<and> hd (TrimSpace (specRawValue line)) = CHR ''[''
               \<and> last (TrimSpace (specRawValue line)) = CHR '']''
            then
              if CHR 0x00 \<in> set (TrimSpace (specRawKey line))
                 \<or> CHR 0x00 \<in> set (butlast (tl (TrimSpace (specRawValue line))))
              then (Some \<lparr>Line = line, LineNum = n,
                          Reason = ''failed to set environment variable: setenv: invalid argument''\<rparr>, env)
              else (None, env(TrimSpace (specRawKey line) \<mapsto> butlast (tl (TrimSpace (specRawValue line)))))
            else (Some \<lparr>Line = line, LineNum = n, Reason = ''invalid specific key-value pair''\<rparr>, env)
          else if CHR 0x00 \<in> set (TrimSpace (specRawKey line))
                  \<or> CHR 0x00 \<in> set (TrimSpace (specRawValue line))
          then (Some \<lparr>Line = line, LineNum = n,
                      Reason = ''failed to set environment variable: setenv: invalid argument''\<rparr>, env)
          else (None, env(TrimSpace (specRawKey line) \<mapsto> TrimSpace (specRawValue line)))))"
proof (intro conjI impI)
  assume "CHR ''='' \<notin> set line"
  then show "parseAndSetEnv line n env =
        (Some \<lparr>Line = line, LineNum = n,
               Reason = ''line must contain exactly one '=' character''\<rparr>, env)"
    by (rule parse_no_sep)
next
  assume a: "list_all (\<lambda>t. TrimSpace t = []) pre \<and> TrimSpace text \<noteq> [] \<and> CHR ''='' \<notin> set (TrimSpace text)"
  then have "loadLines (pre @ text # rest) 0 env = loadLines (text # rest) (int (length pre)) env"
    by (simp add: loadLines_blank_prefix)
  also have "\<dots> = (Some (Wrapped ''failed to set environment variable''
           (ParseErr \<lparr>Line = TrimSpace text, LineNum = int (length pre) + 1,
               Reason = ''line must contain exactly one '=' character''\<rparr>)), env)"
    using a by (simp add: Let_def parse_no_sep)
  finally show "loadLines (pre @ text # rest) 0 env =
        (Some (Wrapped ''failed to set environment variable''
           (ParseErr \<lparr>Line = TrimSpace text, LineNum = int (length pre) + 1,
               Reason = ''line must contain exactly one '=' character''\<rparr>)), env)" .
next
  assume "CHR ''='' \<in> set line"
  then show "line = specRawKey line @ ''='' @ specRawValue line"
    using SplitN2_two [OF split_raw] by simp
next
  show "CHR ''='' \<notin> set (specRawKey line)"
    by (auto simp: specRawKey_def dest: set_takeWhileD)
next
  assume "CHR ''='' \<in> set line"
  then show "parseAndSetEnv line n env =
         (if TrimSpace (specRawKey line) = []
          then (Some \<lparr>Line = line, LineNum = n, Reason = ''empty key is not allowed''\<rparr>, env)
          else if CHR ''='' \<in> set (TrimSpace (specRawValue line))
          then
            if 2 < length (TrimSpace (specRawValue line))
               \<and> hd (TrimSpace (specRawValue line)) = CHR ''[''
               \<and> last (TrimSpace (specRawValue line)) = CHR '']''
            then
              if CHR 0x00 \<in> set (TrimSpace (specRawKey line))
                 \<or> CHR 0x00 \<in> set (butlast (tl (TrimSpace (specRawValue line))))
              then (Some \<lparr>Line = line, LineNum = n,
                          Reason = ''failed to set environment variable: setenv: invalid argument''\<rparr>, env)
              else (None, env(TrimSpace (specRawKey line) \<mapsto> butlast (tl (TrimSpace (specRawValue line)))))
            else (Some \<lparr>Line = line, LineNum = n, Reason = ''invalid specific key-value pair''\<rparr>, env)
          else if CHR 0x00 \<in> set (TrimSpace (specRawKey line))
                  \<or> CHR 0x00 \<in> set (TrimSpace (specRawValue line))
          then (Some \<lparr>Line = line, LineNum = n,
                      Reason = ''failed to set environment variable: setenv: invalid argument''\<rparr>, env)
          else (None, env(TrimSpace (specRawKey line) \<mapsto> TrimSpace (specRawValue line))))"
    by (rule parse_total)
qed

theorem C4_witness:
  "CHR ''='' \<notin> set ''FOO''
   \<and> parseAndSetEnv ''FOO'' 7 Map.empty =
        (Some \<lparr>Line = ''FOO'', LineNum = 7, Reason = ''line must contain exactly one '=' character''\<rparr>, Map.empty)
   \<and> list_all (\<lambda>t. TrimSpace t = []) [[], ''  ''] \<and> TrimSpace '' FOO'' = ''FOO''
   \<and> loadLines ([[], ''  ''] @ '' FOO'' # [''A=1'']) 0 Map.empty =
        (Some (Wrapped ''failed to set environment variable''
           (ParseErr \<lparr>Line = ''FOO'', LineNum = 3, Reason = ''line must contain exactly one '=' character''\<rparr>)), Map.empty)
   \<and> CHR ''='' \<in> set ''A = b=c''
   \<and> specRawKey ''A = b=c'' = ''A '' \<and> specRawValue ''A = b=c'' = '' b=c''
   \<and> parseAndSetEnv ''A = b=c'' 4 Map.empty =
        (Some \<lparr>Line = ''A = b=c'', LineNum = 4, Reason = ''invalid specific key-value pair''\<rparr>, Map.empty)
   \<and> CHR ''='' \<in> set ''A = [b=c]''
   \<and> parseAndSetEnv ''A = [b=c]'' 4 Map.empty = (None, [''A'' \<mapsto> ''b=c''])"
proof -
  have t1: "TrimSpace '' FOO'' = ''FOO''" by code_simp
  have t2: "list_all (\<lambda>t. TrimSpace t = []) [[], ''  '']" by code_simp
  have k: "specRawKey ''A = b=c'' = ''A ''" by code_simp
  have v: "specRawValue ''A = b=c'' = '' b=c''" by code_simp
  have k2: "specRawKey ''A = [b=c]'' = ''A ''" by code_simp
  have v2: "specRawValue ''A = [b=c]'' = '' [b=c]''" by code_simp
  have tk: "TrimSpace ''A '' = ''A''" by code_simp
  have tv: "TrimSpace '' b=c'' = ''b=c''" by code_simp
  have tv2: "TrimSpace '' [b=c]'' = ''[b=c]''" by code_simp
  show ?thesis
    using C4_missing_separator [of "''FOO''" 7 Map.empty "[[], ''  '']" "'' FOO''" "[''A=1'']"]
      C4_missing_separator [of "''A = b=c''" 4 Map.empty "[]" "[]" "[]"]
      C4_missing_separator [of "''A = [b=c]''" 4 Map.empty "[]" "[]" "[]"]
      t1 t2
    by (simp add: k v k2 v2 tk tv tv2)
qed

text \<open>
  C5. A line with a \<open>=\<close> whose part before the first \<open>=\<close> is empty after trimming (such as
  \<open>=value\<close>) is refused with the reason "empty key is not allowed", and the environment is
  the one before the call: nothing is written for that line.
\<close>

theorem C5_empty_key:
  assumes "CHR ''='' \<in> set line"
    and "TrimSpace (takeWhile (\<lambda>c. c \<noteq> CHR ''='') line) = []"
  shows "parseAndSetEnv line n env =
     (Some \<lparr>Line = line, LineNum = n, Reason = ''empty key is not allowed''\<rparr>, env)"
  using assms by (simp add: parse_empty_key [OF SplitN2_char_some])

theorem C5_witness:
  "CHR ''='' \<in> set ''=value'' \<and> TrimSpace (takeWhile (\<lambda>c. c \<noteq> CHR ''='') ''=value'') = []
   \<and> parseAndSetEnv ''=value'' 1 [''HOME'' \<mapsto> ''/root''] =
       (Some \<lparr>Line = ''=value'', LineNum = 1, Reason = ''empty key is not allowed''\<rparr>,
        [''HOME'' \<mapsto> ''/root''])"
proof -
  have a: "CHR ''='' \<in> set ''=value''" by simp
  have b: "TrimSpace (takeWhile (\<lambda>c. c \<noteq> CHR ''='') ''=value'') = []" by code_simp
  show ?thesis using a b C5_empty_key [OF a b, of 1 "[''HOME'' \<mapsto> ''/root'']"] by simp
qed

text \<open>
  C2, as amended. For every line with a non-empty trimmed key whose trimmed value holds a
  \<open>=\<close>: the line is accepted exactly when the value is longer than two bytes, starts with
  \<open>[\<close> and ends with \<open>]\<close>, and the environment takes the write (no NUL byte in the key or
  between the brackets). When it is accepted the outer brackets are stripped and the text
  between them is the value set, verbatim; when it is refused nothing is written; a value
  that is not so wrapped is refused with "invalid specific key-value pair". So \<open>FOO=[a=b]\<close>
  sets \<open>FOO\<close> to \<open>a=b\<close>.
\<close>

theorem C2_bracketed_value:
  assumes "SplitN2 line ''='' = [rawKey, rawValue]"
    and "key = TrimSpace rawKey" and "val = TrimSpace rawValue"
    and "key \<noteq> []" and "CHR ''='' \<in> set val"
  shows "((fst (parseAndSetEnv line n env) = None) =
           ((2 < length val \<and> hd val = CHR ''['' \<and> last val = CHR '']'')
            \<and> CHR 0x00 \<notin> set key \<and> CHR 0x00 \<notin> set (butlast (tl val))))
    \<and> (fst (parseAndSetEnv line n env) = None \<longrightarrow>
           val = ''['' @ butlast (tl val) @ '']''
           \<and> snd (parseAndSetEnv line n env) = env(key \<mapsto> butlast (tl val)))
    \<and> (fst (parseAndSetEnv line n env) \<noteq> None \<longrightarrow> snd (parseAndSetEnv line n env) = env)
    \<and> (\<not> (2 < length val \<and> hd val = CHR ''['' \<and> last val = CHR '']'') \<longrightarrow>
           parseAndSetEnv line n env =
             (Some \<lparr>Line = line, LineNum = n, Reason = ''invalid specific key-value pair''\<rparr>, env))"
proof -
  have k: "TrimSpace rawKey \<noteq> []" and e: "CHR ''='' \<in> set (TrimSpace rawValue)"
    using assms by simp_all
  note p = parse_bracketed [OF assms(1) k e, of n env, folded assms(2) assms(3)]
  have a: "(fst (parseAndSetEnv line n env) = None) =
           ((2 < length val \<and> hd val = CHR ''['' \<and> last val = CHR '']'')
            \<and> CHR 0x00 \<notin> set key \<and> CHR 0x00 \<notin> set (butlast (tl val)))"
    by (auto simp: p)
  have b: "fst (parseAndSetEnv line n env) = None \<longrightarrow>
           val = ''['' @ butlast (tl val) @ '']''
           \<and> snd (parseAndSetEnv line n env) = env(key \<mapsto> butlast (tl val))"
    using strip_brackets [of val "CHR ''[''" "CHR '']''"]
    by (auto simp: p split: if_splits)
  have c: "fst (parseAndSetEnv line n env) \<noteq> None \<longrightarrow> snd (parseAndSetEnv line n env) = env"
    by (auto simp: p split: if_splits)
  have d: "\<not> (2 < length val \<and> hd val = CHR ''['' \<and> last val = CHR '']'') \<longrightarrow>
           parseAndSetEnv line n env =
             (Some \<lparr>Line = line, LineNum = n, Reason = ''invalid specific key-value pair''\<rparr>, env)"
    by (auto simp: p)
  from a b c d show ?thesis by blast
qed

theorem C2_witness:
  "SplitN2 ''FOO=[a=b]'' ''='' = [''FOO'', ''[a=b]''] \<and> ''FOO'' = TrimSpace ''FOO''
   \<and> ''[a=b]'' = TrimSpace ''[a=b]'' \<and> ''FOO'' \<noteq> [] \<and> CHR ''='' \<in> set ''[a=b]''
   \<and> fst (parseAndSetEnv ''FOO=[a=b]'' 1 Map.empty) = None
   \<and> snd (parseAndSetEnv ''FOO=[a=b]'' 1 Map.empty) = [''FOO'' \<mapsto> ''a=b'']"
proof -
  have sp: "SplitN2 ''FOO=[a=b]'' ''='' = [''FOO'', ''[a=b]'']" by code_simp
  have k: "''FOO'' = TrimSpace ''FOO''" by code_simp
  have v: "''[a=b]'' = TrimSpace ''[a=b]''" by code_simp
  have ne: "''FOO'' \<noteq> []" by simp
  have eq: "CHR ''='' \<in> set ''[a=b]''" by simp
  show ?thesis
    using sp k v C2_bracketed_value [OF sp k v ne eq, of 1 Map.empty] by simp
qed

text \<open>
  C2 as stated does not hold for a line with an empty key: the trimmed value of \<open>=[a=b]\<close> is
  \<open>[a=b]\<close>, which holds a \<open>=\<close> and is wrapped in brackets, and the line is refused.
\<close>

theorem C2_counterexample:
  "TrimSpace (SplitN2 ''=[a=b]'' ''='' ! 1) = ''[a=b]''
   \<and> Contains ''[a=b]'' ''='' \<and> 2 < length ''[a=b]'' \<and> hd ''[a=b]'' = CHR ''[''
   \<and> last ''[a=b]'' = CHR '']''
   \<and> parseAndSetEnv ''=[a=b]'' 1 Map.empty =
       (Some \<lparr>Line = ''=[a=b]'', LineNum = 1, Reason = ''empty key is not allowed''\<rparr>, Map.empty)"
proof -
  have sp: "SplitN2 ''=[a=b]'' ''='' = [[], ''[a=b]'']" by code_simp
  have k: "TrimSpace [] = []" by code_simp
  have v: "TrimSpace ''[a=b]'' = ''[a=b]''" by code_simp
  have c: "Contains ''[a=b]'' ''=''" by code_simp
  show ?thesis
    using c by (simp add: sp v parse_empty_key [OF sp k])
qed

text \<open>
  C3, as amended. For a line whose trimmed value holds a \<open>=\<close>, a line with an empty trimmed
  key is refused with "empty key is not allowed"; with a non-empty key, only the outer pair
  of brackets of the value is looked at. A value that is not wrapped in it (partial
  wrapping, or no more than two bytes) is refused with "invalid specific key-value pair".
  A value that is wrapped is accepted whatever stands between the brackets, further \<open>=\<close>
  signs and brackets included, and the key is set to that inner text, unless the key or the
  inner text holds a NUL byte, which the environment refuses. Nothing is written by a
  refused line. In particular, for a key that is trimmed, non-empty and free of \<open>=\<close> and
  NUL, and any inner text with a \<open>=\<close> and no NUL, the line \<open>key=[inner]\<close> sets the key to the
  inner text.
\<close>

theorem C3_only_outer_brackets_count:
  "(SplitN2 line ''='' = [rawKey, rawValue] \<and> CHR ''='' \<in> set (TrimSpace rawValue) \<longrightarrow>
      parseAndSetEnv line n env =
        (if TrimSpace rawKey = []
         then (Some \<lparr>Line = line, LineNum = n, Reason = ''empty key is not allowed''\<rparr>, env)
         else if 2 < length (TrimSpace rawValue) \<and> hd (TrimSpace rawValue) = CHR ''[''
                 \<and> last (TrimSpace rawValue) = CHR '']''
         then
           if CHR 0x00 \<in> set (TrimSpace rawKey) \<or> CHR 0x00 \<in> set (butlast (tl (TrimSpace rawValue)))
           then (Some \<lparr>Line = line, LineNum = n,
                       Reason = ''failed to set environment variable: setenv: invalid argument''\<rparr>, env)
           else (None, env(TrimSpace rawKey \<mapsto> butlast (tl (TrimSpace rawValue))))
         else (Some \<lparr>Line = line, LineNum = n, Reason = ''invalid specific key-value pair''\<rparr>, env)))
   \<and> (TrimSpace key = key \<and> key \<noteq> [] \<and> CHR ''='' \<notin> set key \<and> CHR 0x00 \<notin> set key
      \<and> CHR ''='' \<in> set inner \<and> CHR 0x00 \<notin> set inner \<longrightarrow>
      parseAndSetEnv (key @ ''=['' @ inner @ '']'') n env = (None, env(key \<mapsto> inner)))"
proof (intro conjI impI)
  assume a: "SplitN2 line ''='' = [rawKey, rawValue] \<and> CHR ''='' \<in> set (TrimSpace rawValue)"
  then have sp: "SplitN2 line ''='' = [rawKey, rawValue]"
    and e: "CHR ''='' \<in> set (TrimSpace rawValue)" by simp_all
  show "parseAndSetEnv line n env =
        (if TrimSpace rawKey = []
         then (Some \<lparr>Line = line, LineNum = n, Reason = ''empty key is not allowed''\<rparr>, env)
         else if 2 < length (TrimSpace rawValue) \<and> hd (TrimSpace rawValue) = CHR ''[''
                 \<and> last (TrimSpace rawValue) = CHR '']''
         then
           if CHR 0x00 \<in> set (TrimSpace rawKey) \<or> CHR 0x00 \<in> set (butlast (tl (TrimSpace rawValue)))
           then (Some \<lparr>Line = line, LineNum = n,
                       Reason = ''failed to set environment variable: setenv: invalid argument''\<rparr>, env)
           else (None, env(TrimSpace rawKey \<mapsto> butlast (tl (TrimSpace rawValue))))
         else (Some \<lparr>Line = line, LineNum = n, Reason = ''invalid specific key-value pair''\<rparr>, env))"
  proof (cases "TrimSpace rawKey = []")
    case True
    then show ?thesis by (simp add: parse_empty_key [OF sp])
  next
    case False
    then show ?thesis by (simp add: parse_bracketed [OF sp False e])
  qed
next
  assume a: "TrimSpace key = key \<and> key \<noteq> [] \<and> CHR ''='' \<notin> set key \<and> CHR 0x00 \<notin> set key
      \<and> CHR ''='' \<in> set inner \<and> CHR 0x00 \<notin> set inner"
  let ?v = "CHR ''['' # inner @ '']''"
  have sp: "SplitN2 (key @ ''=['' @ inner @ '']'') ''='' = [key, ?v]"
    using a SplitN2_append [of "CHR ''=''" key ?v] by simp
  have k: "TrimSpace key \<noteq> []" using a by simp
  have e: "CHR ''='' \<in> set (TrimSpace ?v)" using a by (simp add: TrimSpace_bracketed)
  show "parseAndSetEnv (key @ ''=['' @ inner @ '']'') n env = (None, env(key \<mapsto> inner))"
  proof -
    have ne: "inner \<noteq> []" using a by auto
    have tk: "TrimSpace key = key" using a by simp
    show ?thesis
      using a ne parse_bracketed [OF sp k e, of n env, unfolded TrimSpace_bracketed tk]
      by simp
  qed
qed

theorem C3_witness:
  "SplitN2 ''FOO=[a=b'' ''='' = [''FOO'', ''[a=b''] \<and> TrimSpace ''FOO'' = ''FOO''
   \<and> TrimSpace ''[a=b'' = ''[a=b'' \<and> CHR ''='' \<in> set ''[a=b'' \<and> last ''[a=b'' \<noteq> CHR '']''
   \<and> parseAndSetEnv ''FOO=[a=b'' 1 Map.empty =
     (Some \<lparr>Line = ''FOO=[a=b'', LineNum = 1, Reason = ''invalid specific key-value pair''\<rparr>, Map.empty)
   \<and> CHR ''='' \<notin> set ''FOO'' \<and> CHR 0x00 \<notin> set ''FOO'' \<and> CHR ''='' \<in> set ''a=[b=c]=d''
   \<and> CHR 0x00 \<notin> set ''a=[b=c]=d''
   \<and> parseAndSetEnv ''FOO=[a=[b=c]=d]'' 1 Map.empty = (None, [''FOO'' \<mapsto> ''a=[b=c]=d''])"
proof -
  have sp: "SplitN2 ''FOO=[a=b'' ''='' = [''FOO'', ''[a=b'']" by code_simp
  have k: "TrimSpace ''FOO'' = ''FOO''" by code_simp
  have v: "TrimSpace ''[a=b'' = ''[a=b''" by code_simp
  show ?thesis
    using C3_only_outer_brackets_count [of "''FOO=[a=b''" "''FOO''" "''[a=b''" 1 Map.empty "''FOO''" "''a=[b=c]=d''"]
    by (simp add: sp k v)
qed

text \<open>
  C3 as stated does not hold: a bracketed value with two \<open>=\<close> signs, and one with nested
  brackets, are both accepted.
\<close>

theorem C3_counterexample:
  "parseAndSetEnv ''FOO=[a=b=c]'' 1 Map.empty = (None, [''FOO'' \<mapsto> ''a=b=c''])
   \<and> parseAndSetEnv ''FOO=[[a=b]]'' 1 Map.empty = (None, [''FOO'' \<mapsto> ''[a=b]''])"
proof -
  have k: "TrimSpace ''FOO'' = ''FOO''" by code_simp
  have sp1: "SplitN2 ''FOO=[a=b=c]'' ''='' = [''FOO'', ''[a=b=c]'']" by code_simp
  have v1: "TrimSpace ''[a=b=c]'' = ''[a=b=c]''" by code_simp
  have sp2: "SplitN2 ''FOO=[[a=b]]'' ''='' = [''FOO'', ''[[a=b]]'']" by code_simp
  have v2: "TrimSpace ''[[a=b]]'' = ''[[a=b]]''" by code_simp
  have "parseAndSetEnv ''FOO=[a=b=c]'' 1 Map.empty = (None, [''FOO'' \<mapsto> ''a=b=c''])"
    by (simp add: parse_bracketed [OF sp1] k v1)
  moreover have "parseAndSetEnv ''FOO=[[a=b]]'' 1 Map.empty = (None, [''FOO'' \<mapsto> ''[a=b]''])"
    by (simp add: parse_bracketed [OF sp2] k v2)
  ultimately show ?thesis by simp
qed

text \<open>
  C10, as amended. The brackets are stripped only from a value that holds a \<open>=\<close>. For every
  line with a \<open>=\<close> whose trimmed value holds no further \<open>=\<close>: the line is refused, and nothing
  is written, when its trimmed key is empty ("empty key is not allowed") or when the
  environment refuses the pair (a NUL byte in the key or the value); in every other case
  the key is set to the trimmed value verbatim, surrounding square brackets included. So
  \<open>KEY=[abc]\<close> sets \<open>KEY\<close> to \<open>[abc]\<close>.
\<close>

theorem C10_plain_value_verbatim:
  assumes "SplitN2 line ''='' = [rawKey, rawValue]"
    and "CHR ''='' \<notin> set (TrimSpace rawValue)"
  shows "parseAndSetEnv line n env =
     (if TrimSpace rawKey = []
      then (Some \<lparr>Line = line, LineNum = n, Reason = ''empty key is not allowed''\<rparr>, env)
      else if CHR 0x00 \<in> set (TrimSpace rawKey) \<or> CHR 0x00 \<in> set (TrimSpace rawValue)
      then (Some \<lparr>Line = line, LineNum = n,
                  Reason = ''failed to set environment variable: setenv: invalid argument''\<rparr>, env)
      else (None, env(TrimSpace rawKey \<mapsto> TrimSpace rawValue)))"
  using assms by (rule parse_plain)

theorem C10_witness:
  "SplitN2 ''KEY=[abc]'' ''='' = [''KEY'', ''[abc]''] \<and> CHR ''='' \<notin> set (TrimSpace ''[abc]'')
   \<and> parseAndSetEnv ''KEY=[abc]'' 1 Map.empty = (None, [''KEY'' \<mapsto> ''[abc]''])"
proof -
  have sp: "SplitN2 ''KEY=[abc]'' ''='' = [''KEY'', ''[abc]'']" by code_simp
  have k: "TrimSpace ''KEY'' = ''KEY''" by code_simp
  have v: "TrimSpace ''[abc]'' = ''[abc]''" by code_simp
  have noeq: "CHR ''='' \<notin> set (TrimSpace ''[abc]'')" by (simp add: v)
  show ?thesis
    using sp noeq C10_plain_value_verbatim [OF sp noeq, of 1 Map.empty] by (simp add: k v)
qed

text \<open>
  C10 as stated does not hold for a line with an empty key: the trimmed value of \<open>=[abc]\<close>
  is \<open>[abc]\<close>, which holds no \<open>=\<close>, and nothing is written.
\<close>

theorem C10_counterexample:
  "TrimSpace (SplitN2 ''=[abc]'' ''='' ! 1) = ''[abc]''
   \<and> \<not> Contains ''[abc]'' ''=''
   \<and> parseAndSetEnv ''=[abc]'' 1 Map.empty =
       (Some \<lparr>Line = ''=[abc]'', LineNum = 1, Reason = ''empty key is not allowed''\<rparr>, Map.empty)"
proof -
  have sp: "SplitN2 ''=[abc]'' ''='' = [[], ''[abc]'']" by code_simp
  have k: "TrimSpace [] = []" by code_simp
  have v: "TrimSpace ''[abc]'' = ''[abc]''" by code_simp
  have c: "\<not> Contains ''[abc]'' ''=''" by code_simp
  show ?thesis
    using c by (simp add: sp v parse_empty_key [OF sp k])
qed

section \<open>The loader\<close>

text \<open>
  C1, as amended. When the secret's text is \<open>FOO=bar=baz\<close>, \<open>LoadSecretToEnv\<close> fails with a
  parse error for line 1, wrapped with "failed to set environment variable", whose reason
  is "invalid specific key-value pair"; the environment is left as it was, so \<open>FOO\<close> is
  never set.
\<close>

theorem C1_two_equals_invalid_pair:
  assumes "AccessSecretVersion (client c) (secretPath (config c)) = Inr ''FOO=bar=baz''"
  shows "LoadSecretToEnv c env =
     (Some (Wrapped ''failed to set environment variable''
        (ParseErr \<lparr>Line = ''FOO=bar=baz'', LineNum = 1,
           Reason = ''invalid specific key-value pair''\<rparr>)), env)"
  using assms by (rule load_two_equals)

theorem C1_witness:
  "AccessSecretVersion (client (mockClient ''FOO=bar=baz'' True))
      (secretPath (config (mockClient ''FOO=bar=baz'' True))) = Inr ''FOO=bar=baz''
   \<and> LoadSecretToEnv (mockClient ''FOO=bar=baz'' True) [''HOME'' \<mapsto> ''/root''] =
       (Some (Wrapped ''failed to set environment variable''
          (ParseErr \<lparr>Line = ''FOO=bar=baz'', LineNum = 1,
             Reason = ''invalid specific key-value pair''\<rparr>)), [''HOME'' \<mapsto> ''/root''])"
proof -
  have f: "AccessSecretVersion (client (mockClient ''FOO=bar=baz'' True))
      (secretPath (config (mockClient ''FOO=bar=baz'' True))) = Inr ''FOO=bar=baz''"
    by (rule mockClient_fetch)
  show ?thesis
    using f C1_two_equals_invalid_pair [OF f, of "[''HOME'' \<mapsto> ''/root'']"] by simp
qed

text \<open>
  C1 as stated does not hold: the reason of the parse error for \<open>FOO=bar=baz\<close> does not
  mention "exactly one '=' character". That reason is given only to a line with no \<open>=\<close>.
\<close>

theorem C1_counterexample:
  "LoadSecretToEnv (mockClient ''FOO=bar=baz'' True) Map.empty =
       (Some (Wrapped ''failed to set environment variable''
          (ParseErr \<lparr>Line = ''FOO=bar=baz'', LineNum = 1,
             Reason = ''invalid specific key-value pair''\<rparr>)), Map.empty)
   \<and> \<not> Contains ''invalid specific key-value pair'' ''exactly one '=' character''"
proof -
  have c: "\<not> Contains ''invalid specific key-value pair'' ''exactly one '=' character''"
    by code_simp
  show ?thesis
    using load_two_equals [where env = Map.empty, OF mockClient_fetch] c by simp
qed

text \<open>
  C8, as amended. Let the scanner deliver the lines \<open>pre\<close>, then \<open>bad\<close>, then \<open>post\<close>, where
  every line of \<open>pre\<close> is well formed (blank, or with an entry the environment accepts) and
  \<open>bad\<close>, line number \<open>N = length pre + 1\<close>, is malformed (not blank, and without such an
  entry). Then \<open>LoadSecretToEnv\<close> returns a \<open>ParseError\<close> for the trimmed line \<open>bad\<close> with
  line number \<open>N\<close>, wrapped with "failed to set environment variable"; the environment it
  leaves is the one given with the entry of every line before \<open>N\<close> written, in order, and
  none undone; and both hold whatever the lines \<open>post\<close> after \<open>N\<close> are, so none of them is
  processed. The scanner delivers every line shorter than \<open>MaxScanTokenSize\<close> bytes: a text
  that starts with such lines, each ended by a newline, is scanned into these lines (less a
  trailing carriage return) followed by the scan of the rest.
\<close>

theorem C8_stops_at_first_malformed_line:
  "(AccessSecretVersion (client c) (secretPath (config c)) = Inr content
      \<and> scanLines content = (pre @ bad # post, tooLong)
      \<and> list_all specWellFormed pre \<and> \<not> specWellFormed bad \<longrightarrow>
      snd (LoadSecretToEnv c env) = specApply pre env
      \<and> (\<exists>pe. fst (LoadSecretToEnv c env)
               = Some (Wrapped ''failed to set environment variable'' (ParseErr pe))
             \<and> LineNum pe = int (length pre) + 1 \<and> Line pe = TrimSpace bad))
   \<and> (list_all (\<lambda>l. CHR 0x0A \<notin> set l \<and> length l < MaxScanTokenSize) ls \<longrightarrow>
      scanLines (concat (map (\<lambda>l. l @ [CHR 0x0A]) ls) @ after) =
        (map dropCR ls @ fst (scanLines after), snd (scanLines after)))"
proof (intro conjI impI)
  assume a: "AccessSecretVersion (client c) (secretPath (config c)) = Inr content
      \<and> scanLines content = (pre @ bad # post, tooLong)
      \<and> list_all specWellFormed pre \<and> \<not> specWellFormed bad"
  then have f: "AccessSecretVersion (client c) (secretPath (config c)) = Inr content"
    and s: "scanLines content = (pre @ bad # post, tooLong)"
    and wf: "list_all specWellFormed pre" and bad: "\<not> specWellFormed bad" by simp_all
  from load_stops_at_malformed [OF f s wf bad, of env]
  show "snd (LoadSecretToEnv c env) = specApply pre env" by simp
  from load_stops_at_malformed [OF f s wf bad, of env]
  show "\<exists>pe. fst (LoadSecretToEnv c env)
               = Some (Wrapped ''failed to set environment variable'' (ParseErr pe))
             \<and> LineNum pe = int (length pre) + 1 \<and> Line pe = TrimSpace bad" by simp
next
  assume "list_all (\<lambda>l. CHR 0x0A \<notin> set l \<and> length l < MaxScanTokenSize) ls"
  then show "scanLines (concat (map (\<lambda>l. l @ [CHR 0x0A]) ls) @ after) =
        (map dropCR ls @ fst (scanLines after), snd (scanLines after))"
    by (rule scanLines_delivers)
qed

theorem C8_witness:
  "AccessSecretVersion
      (client (mockClient (''A=1'' @ [CHR 0x0A] @ ''A = [x=y]'' @ [CHR 0x0A] @ ''B'' @ [CHR 0x0A] @ ''C=3'') True))
      (secretPath
        (config (mockClient (''A=1'' @ [CHR 0x0A] @ ''A = [x=y]'' @ [CHR 0x0A] @ ''B'' @ [CHR 0x0A] @ ''C=3'') True)))
     = Inr (''A=1'' @ [CHR 0x0A] @ ''A = [x=y]'' @ [CHR 0x0A] @ ''B'' @ [CHR 0x0A] @ ''C=3'')
   \<and> scanLines (''A=1'' @ [CHR 0x0A] @ ''A = [x=y]'' @ [CHR 0x0A] @ ''B'' @ [CHR 0x0A] @ ''C=3'')
       = ([''A=1'', ''A = [x=y]''] @ ''B'' # [''C=3''], False)
   \<and> list_all specWellFormed [''A=1'', ''A = [x=y]''] \<and> \<not> specWellFormed ''B''
   \<and> specApply [''A=1'', ''A = [x=y]''] [''Z'' \<mapsto> ''0''] = [''Z'' \<mapsto> ''0'', ''A'' \<mapsto> ''x=y'']
   \<and> LoadSecretToEnv
        (mockClient (''A=1'' @ [CHR 0x0A] @ ''A = [x=y]'' @ [CHR 0x0A] @ ''B'' @ [CHR 0x0A] @ ''C=3'') True)
        [''Z'' \<mapsto> ''0''] =
       (Some (Wrapped ''failed to set environment variable''
          (ParseErr \<lparr>Line = ''B'', LineNum = 3,
             Reason = ''line must contain exactly one '=' character''\<rparr>)),
        [''Z'' \<mapsto> ''0'', ''A'' \<mapsto> ''x=y''])
   \<and> list_all (\<lambda>l. CHR 0x0A \<notin> set l \<and> length l < MaxScanTokenSize) [''A=1'', ''B'']
   \<and> scanLines (concat (map (\<lambda>l. l @ [CHR 0x0A]) [''A=1'', ''B'']) @ ''C=3'')
       = ([''A=1'', ''B'', ''C=3''], False)"
proof -
  let ?text = "''A=1'' @ [CHR 0x0A] @ ''A = [x=y]'' @ [CHR 0x0A] @ ''B'' @ [CHR 0x0A] @ ''C=3''"
  let ?env = "[''Z'' \<mapsto> ''0'']"
  have f: "AccessSecretVersion (client (mockClient ?text True))
      (secretPath (config (mockClient ?text True))) = Inr ?text"
    by (rule mockClient_fetch)
  have s: "scanLines ?text = ([''A=1'', ''A = [x=y]''] @ ''B'' # [''C=3''], False)"
    by (simp add: scanLines_def MaxScanTokenSize_def dropCR_def)
  have t1: "TrimSpace ''A=1'' = ''A=1''" by code_simp
  have t2: "TrimSpace ''A = [x=y]'' = ''A = [x=y]''" by code_simp
  have tb: "TrimSpace ''B'' = ''B''" by code_simp
  have e1: "specEntry ''A=1'' = Some (''A'', ''1'')" by code_simp
  have e2: "specEntry ''A = [x=y]'' = Some (''A'', ''x=y'')" by code_simp
  have eb: "specEntry ''B'' = None" by code_simp
  have wf: "list_all specWellFormed [''A=1'', ''A = [x=y]'']"
    by (simp add: specWellFormed_def t1 t2 e1 e2 sinkAccepts_iff)
  have bad: "\<not> specWellFormed ''B''"
    by (simp add: specWellFormed_def tb eb)
  have ap: "specApply [''A=1'', ''A = [x=y]''] ?env = [''Z'' \<mapsto> ''0'', ''A'' \<mapsto> ''x=y'']"
    by (simp add: t1 t2 e1 e2)
  have l: "list_all (\<lambda>l. CHR 0x0A \<notin> set l \<and> length l < MaxScanTokenSize) [''A=1'', ''B'']"
    by (simp add: MaxScanTokenSize_def)
  have s3: "scanLines ''C=3'' = ([''C=3''], False)"
    by (simp add: scanLines_def MaxScanTokenSize_def dropCR_def)
  have d: "dropCR ''A=1'' = ''A=1''" "dropCR ''B'' = ''B''" by (simp_all add: dropCR_def)
  have p1: "parseAndSetEnv ''A=1'' 1 ?env = (None, ?env(''A'' \<mapsto> ''1''))"
    by (rule parse_spec_ok [OF e1]) (simp add: sinkAccepts_iff)
  have p2: "parseAndSetEnv ''A = [x=y]'' 2 (?env(''A'' \<mapsto> ''1''))
      = (None, (?env(''A'' \<mapsto> ''1''))(''A'' \<mapsto> ''x=y''))"
    by (rule parse_spec_ok [OF e2]) (simp add: sinkAccepts_iff)
  have direct: "LoadSecretToEnv (mockClient ?text True) ?env =
       (Some (Wrapped ''failed to set environment variable''
          (ParseErr \<lparr>Line = ''B'', LineNum = 3,
             Reason = ''line must contain exactly one '=' character''\<rparr>)),
        [''Z'' \<mapsto> ''0'', ''A'' \<mapsto> ''x=y''])"
    using LoadSecretToEnv_fetched [OF f s, of ?env]
    by (simp add: Let_def t1 t2 tb p1 p2 parse_no_sep)
  show ?thesis
    using C8_stops_at_first_malformed_line [where c = "mockClient ?text True" and content = ?text
        and pre = "[''A=1'', ''A = [x=y]'']" and bad = "''B''" and post = "[''C=3'']"
        and tooLong = False and env = ?env and ls = "[''A=1'', ''B'']" and after = "''C=3''"]
      f s wf bad ap direct l s3 d
    by simp
qed

text \<open>
  C8 as stated does not hold when line \<open>N\<close> is one the scanner cannot deliver: in the text of
  the line \<open>A=1\<close> and a second line of 65536 letters, line 2 is not blank and is refused by
  \<open>parseAndSetEnv\<close>, and the load ends with "error reading secret content", not with a
  parse error for line 2. The write of line 1 stays in effect.
\<close>

theorem C8_counterexample:
  "TrimSpace (replicate 65536 CHR ''x'') = replicate 65536 CHR ''x''
   \<and> parseAndSetEnv (replicate 65536 CHR ''x'') 2 [''A'' \<mapsto> ''1''] =
       (Some \<lparr>Line = replicate 65536 CHR ''x'', LineNum = 2,
              Reason = ''line must contain exactly one '=' character''\<rparr>, [''A'' \<mapsto> ''1''])
   \<and> LoadSecretToEnv (mockClient (''A=1'' @ CHR 0x0A # replicate 65536 CHR ''x'') True) Map.empty =
       (Some (Wrapped ''error reading secret content'' ErrTooLong), [''A'' \<mapsto> ''1''])"
proof (intro conjI)
  show "TrimSpace (replicate 65536 CHR ''x'') = replicate 65536 CHR ''x''"
    by (rule TrimSpace_xs)
  have "CHR ''='' \<notin> set (replicate 65536 CHR ''x'')" by simp
  then show "parseAndSetEnv (replicate 65536 CHR ''x'') 2 [''A'' \<mapsto> ''1''] =
       (Some \<lparr>Line = replicate 65536 CHR ''x'', LineNum = 2,
              Reason = ''line must contain exactly one '=' character''\<rparr>, [''A'' \<mapsto> ''1''])"
    by (rule parse_no_sep)
  have "MaxScanTokenSize \<le> 65536" by (simp add: MaxScanTokenSize_def)
  then show "LoadSecretToEnv (mockClient (''A=1'' @ CHR 0x0A # replicate 65536 CHR ''x'') True) Map.empty =
       (Some (Wrapped ''error reading secret content'' ErrTooLong), [''A'' \<mapsto> ''1''])"
    by (rule load_line_then_long)
qed

text \<open>
  C9, as amended. Every line the scanner delivers that is empty after trimming is skipped:
  the loop goes on with the next line and the next line number, with the environment
  unchanged and no error. So a blank line anywhere among the lines changes neither the
  environment the load leaves nor whether it fails: both are those of the same lines
  without it. The scanner delivers every line shorter than \<open>MaxScanTokenSize\<close> bytes, and
  goes on with the text after its newline. A text whose delivered lines are all blank is
  loaded with no error and no write.
\<close>

theorem C9_blank_lines_skipped:
  "(TrimSpace blank = [] \<longrightarrow> loadLines (blank # rest) n env = loadLines rest (n + 1) env)
   \<and> (TrimSpace blank = [] \<longrightarrow>
        snd (loadLines (pre @ blank # rest) n env) = snd (loadLines (pre @ rest) n env)
        \<and> (fst (loadLines (pre @ blank # rest) n env) = None)
            = (fst (loadLines (pre @ rest) n env) = None))
   \<and> (CHR 0x0A \<notin> set t \<and> length t < MaxScanTokenSize \<longrightarrow>
        scanLines (t @ CHR 0x0A # after) = (dropCR t # fst (scanLines after), snd (scanLines after)))
   \<and> (AccessSecretVersion (client c) (secretPath (config c)) = Inr content
        \<and> scanLines content = (lines, False) \<and> list_all (\<lambda>t. TrimSpace t = []) lines \<longrightarrow>
        LoadSecretToEnv c env = (None, env))"
proof (intro conjI impI)
  assume "TrimSpace blank = []"
  then show "loadLines (blank # rest) n env = loadLines rest (n + 1) env"
    by (simp add: Let_def)
next
  assume "TrimSpace blank = []"
  then show "snd (loadLines (pre @ blank # rest) n env) = snd (loadLines (pre @ rest) n env)"
    using blank_line_frame [of blank pre rest n env] by simp
next
  assume "TrimSpace blank = []"
  then show "(fst (loadLines (pre @ blank # rest) n env) = None)
            = (fst (loadLines (pre @ rest) n env) = None)"
    using blank_line_frame [of blank pre rest n env] by simp
next
  assume "CHR 0x0A \<notin> set t \<and> length t < MaxScanTokenSize"
  then show "scanLines (t @ CHR 0x0A # after) = (dropCR t # fst (scanLines after), snd (scanLines after))"
    using scanFrom_line [of t "[]" after] by (simp add: scanLines_def)
next
  assume a: "AccessSecretVersion (client c) (secretPath (config c)) = Inr content
        \<and> scanLines content = (lines, False) \<and> list_all (\<lambda>t. TrimSpace t = []) lines"
  then have f: "AccessSecretVersion (client c) (secretPath (config c)) = Inr content"
    and s: "scanLines content = (lines, False)" by simp_all
  show "LoadSecretToEnv c env = (None, env)"
    using a by (simp add: LoadSecretToEnv_fetched [OF f s] loadLines_all_blank)
qed

theorem C9_witness:
  "TrimSpace [CHR 0x20, CHR 0x09] = []
   \<and> loadLines ([CHR 0x20, CHR 0x09] # [''B=2'']) 0 Map.empty = loadLines [''B=2''] 1 Map.empty
   \<and> snd (loadLines ([''A=1''] @ [CHR 0x20, CHR 0x09] # [''B=2'']) 0 Map.empty)
       = snd (loadLines ([''A=1''] @ [''B=2'']) 0 Map.empty)
   \<and> CHR 0x0A \<notin> set [CHR 0x20, CHR 0x09] \<and> length [CHR 0x20, CHR 0x09] < MaxScanTokenSize
   \<and> scanLines ([CHR 0x20, CHR 0x09] @ CHR 0x0A # ''B=2'') = ([[CHR 0x20, CHR 0x09], ''B=2''], False)
   \<and> scanLines [CHR 0x20, CHR 0x0D, CHR 0x0A, CHR 0x0A, CHR 0x09] = ([[CHR 0x20], [], [CHR 0x09]], False)
   \<and> list_all (\<lambda>t. TrimSpace t = []) [[CHR 0x20], [], [CHR 0x09]]
   \<and> LoadSecretToEnv (mockClient [CHR 0x20, CHR 0x0D, CHR 0x0A, CHR 0x0A, CHR 0x09] True)
        [''HOME'' \<mapsto> ''/root''] = (None, [''HOME'' \<mapsto> ''/root''])"
proof -
  let ?content = "[CHR 0x20, CHR 0x0D, CHR 0x0A, CHR 0x0A, CHR 0x09]"
  have t: "TrimSpace [CHR 0x20, CHR 0x09] = []" by code_simp
  have n: "CHR 0x0A \<notin> set [CHR 0x20, CHR 0x09] \<and> length [CHR 0x20, CHR 0x09] < MaxScanTokenSize"
    by (simp add: MaxScanTokenSize_def)
  have s1: "scanLines ''B=2'' = ([''B=2''], False)"
    by (simp add: scanLines_def MaxScanTokenSize_def dropCR_def)
  have d: "dropCR [CHR 0x20, CHR 0x09] = [CHR 0x20, CHR 0x09]" by (simp add: dropCR_def)
  have f: "AccessSecretVersion (client (mockClient ?content True))
      (secretPath (config (mockClient ?content True))) = Inr ?content"
    by (rule mockClient_fetch)
  have s2: "scanLines ?content = ([[CHR 0x20], [], [CHR 0x09]], False)"
    by (simp add: scanLines_def MaxScanTokenSize_def dropCR_def)
  have b: "list_all (\<lambda>t. TrimSpace t = []) [[CHR 0x20], [], [CHR 0x09]]" by code_simp
  show ?thesis
    using C9_blank_lines_skipped [where blank = "[CHR 0x20, CHR 0x09]" and rest = "[''B=2'']"
        and n = 0 and env = Map.empty and pre = "[''A=1'']" and t = "[CHR 0x20, CHR 0x09]"
        and after = "''B=2''"]
      C9_blank_lines_skipped [where env = "[''HOME'' \<mapsto> ''/root'']"
        and c = "mockClient ?content True" and content = ?content
        and lines = "[[CHR 0x20], [], [CHR 0x09]]"]
      t n s1 d f s2 b
    by simp
qed

text \<open>
  C9 as stated does not hold for a line the scanner cannot deliver: a text of 65536
  spaces is one whitespace-only line, and loading it ends with the scanner's error
  "error reading secret content" instead of skipping the line.
\<close>

theorem C9_counterexample:
  "TrimSpace (replicate 65536 CHR '' '') = []
   \<and> LoadSecretToEnv (mockClient (replicate 65536 CHR '' '') True) Map.empty =
       (Some (Wrapped ''error reading secret content'' ErrTooLong), Map.empty)"
proof (rule conjI)
  show "TrimSpace (replicate 65536 CHR '' '') = []" by (rule TrimSpace_spaces)
  have "MaxScanTokenSize \<le> 65536" by (simp add: MaxScanTokenSize_def)
  then show "LoadSecretToEnv (mockClient (replicate 65536 CHR '' '') True) Map.empty =
       (Some (Wrapped ''error reading secret content'' ErrTooLong), Map.empty)"
    by (rule load_long_blank)
qed

section \<open>Configuration and fetch\<close>

text \<open>
  C6. \<open>NewConfig\<close> fails with the missing field \<open>GCP_PROJECT_ID\<close> when that variable is not
  set or empty, whatever the other variables are; with a project identifier, it fails with
  the missing field \<open>SECRET_NAME\<close> when that variable is not set or empty; with both, it
  succeeds with the two values, and the version is \<open>latest\<close> when \<open>SECRET_VERSION\<close> is not
  set or empty and the given version otherwise.
\<close>

theorem C6_NewConfig:
  "(env ''GCP_PROJECT_ID'' = None \<or> env ''GCP_PROJECT_ID'' = Some [] \<longrightarrow>
      NewConfig env = Inl \<lparr>MissingField = ''GCP_PROJECT_ID''\<rparr>)
   \<and> (env ''GCP_PROJECT_ID'' = Some project \<and> project \<noteq> []
        \<and> (env ''SECRET_NAME'' = None \<or> env ''SECRET_NAME'' = Some []) \<longrightarrow>
      NewConfig env = Inl \<lparr>MissingField = ''SECRET_NAME''\<rparr>)
   \<and> (env ''GCP_PROJECT_ID'' = Some project \<and> project \<noteq> []
        \<and> env ''SECRET_NAME'' = Some secret \<and> secret \<noteq> [] \<longrightarrow>
      NewConfig env =
        Inr \<lparr>ProjectID = project, SecretName = secret,
             SecretVersion =
               (case env ''SECRET_VERSION'' of
                  None \<Rightarrow> ''latest''
                | Some version \<Rightarrow> if version = [] then ''latest'' else version)\<rparr>)"
  by (auto simp: NewConfig_def Getenv_def Let_def split: option.splits)

theorem C6_witness:
  "NewConfig [''SECRET_NAME'' \<mapsto> ''db'', ''SECRET_VERSION'' \<mapsto> ''3'']
      = Inl \<lparr>MissingField = ''GCP_PROJECT_ID''\<rparr>
   \<and> NewConfig [''GCP_PROJECT_ID'' \<mapsto> [], ''SECRET_NAME'' \<mapsto> ''db'']
      = Inl \<lparr>MissingField = ''GCP_PROJECT_ID''\<rparr>
   \<and> NewConfig [''GCP_PROJECT_ID'' \<mapsto> ''p1'', ''SECRET_VERSION'' \<mapsto> ''3'']
      = Inl \<lparr>MissingField = ''SECRET_NAME''\<rparr>
   \<and> NewConfig [''GCP_PROJECT_ID'' \<mapsto> ''p1'', ''SECRET_NAME'' \<mapsto> ''db'']
      = Inr \<lparr>ProjectID = ''p1'', SecretName = ''db'', SecretVersion = ''latest''\<rparr>
   \<and> NewConfig [''GCP_PROJECT_ID'' \<mapsto> ''p1'', ''SECRET_NAME'' \<mapsto> ''db'', ''SECRET_VERSION'' \<mapsto> []]
      = Inr \<lparr>ProjectID = ''p1'', SecretName = ''db'', SecretVersion = ''latest''\<rparr>
   \<and> NewConfig [''GCP_PROJECT_ID'' \<mapsto> ''p1'', ''SECRET_NAME'' \<mapsto> ''db'', ''SECRET_VERSION'' \<mapsto> ''3'']
      = Inr \<lparr>ProjectID = ''p1'', SecretName = ''db'', SecretVersion = ''3''\<rparr>"
  using
    C6_NewConfig [of "[''SECRET_NAME'' \<mapsto> ''db'', ''SECRET_VERSION'' \<mapsto> ''3'']" "[]" "[]"]
    C6_NewConfig [of "[''GCP_PROJECT_ID'' \<mapsto> [], ''SECRET_NAME'' \<mapsto> ''db'']" "[]" "[]"]
    C6_NewConfig [of "[''GCP_PROJECT_ID'' \<mapsto> ''p1'', ''SECRET_VERSION'' \<mapsto> ''3'']" "''p1''" "[]"]
    C6_NewConfig [of "[''GCP_PROJECT_ID'' \<mapsto> ''p1'', ''SECRET_NAME'' \<mapsto> ''db'']" "''p1''" "''db''"]
    C6_NewConfig [of "[''GCP_PROJECT_ID'' \<mapsto> ''p1'', ''SECRET_NAME'' \<mapsto> ''db'', ''SECRET_VERSION'' \<mapsto> []]"
      "''p1''" "''db''"]
    C6_NewConfig [of "[''GCP_PROJECT_ID'' \<mapsto> ''p1'', ''SECRET_NAME'' \<mapsto> ''db'', ''SECRET_VERSION'' \<mapsto> ''3'']"
      "''p1''" "''db''"]
  by simp

text \<open>
  C7. \<open>GetSecret\<close> asks the remote capability for exactly the name
  \<open>projects/{project}/secrets/{secret}/versions/{version}\<close>: its result is the payload of the
  answer under that name when the call succeeds, and the error of the answer wrapped with
  "failed to access secret", whose message contains that text, when the call fails; a
  capability that answers every call with the name it was asked for makes \<open>GetSecret\<close>
  return that very string.
\<close>

theorem C7_GetSecret:
  "(AccessSecretVersion (client c)
       (''projects/'' @ ProjectID (config c) @ ''/secrets/'' @ SecretName (config c)
          @ ''/versions/'' @ SecretVersion (config c)) = Inr data \<longrightarrow>
      GetSecret c = Inr data)
   \<and> (AccessSecretVersion (client c)
       (''projects/'' @ ProjectID (config c) @ ''/secrets/'' @ SecretName (config c)
          @ ''/versions/'' @ SecretVersion (config c)) = Inl err \<longrightarrow>
      GetSecret c = Inl (Wrapped ''failed to access secret'' err)
      \<and> Contains (Error (Wrapped ''failed to access secret'' err)) ''failed to access secret'')
   \<and> GetSecret \<lparr>client = \<lparr>AccessSecretVersion = Inr, CloseClient = None\<rparr>,
                  config = \<lparr>ProjectID = project, SecretName = secret, SecretVersion = version\<rparr>\<rparr>
        = Inr (''projects/'' @ project @ ''/secrets/'' @ secret @ ''/versions/'' @ version)"
proof (intro conjI impI)
  assume "AccessSecretVersion (client c)
       (''projects/'' @ ProjectID (config c) @ ''/secrets/'' @ SecretName (config c)
          @ ''/versions/'' @ SecretVersion (config c)) = Inr data"
  then show "GetSecret c = Inr data"
    by (simp add: GetSecret_def secretPath_def)
next
  assume "AccessSecretVersion (client c)
       (''projects/'' @ ProjectID (config c) @ ''/secrets/'' @ SecretName (config c)
          @ ''/versions/'' @ SecretVersion (config c)) = Inl err"
  then show "GetSecret c = Inl (Wrapped ''failed to access secret'' err)"
    by (simp add: GetSecret_def secretPath_def)
next
  have "Contains (''failed to access secret'' @ '': '' @ Error err) ''failed to access secret''"
    by (rule Contains_prefix)
  then show "Contains (Error (Wrapped ''failed to access secret'' err)) ''failed to access secret''"
    by simp
next
  show "GetSecret \<lparr>client = \<lparr>AccessSecretVersion = Inr, CloseClient = None\<rparr>,
                  config = \<lparr>ProjectID = project, SecretName = secret, SecretVersion = version\<rparr>\<rparr>
        = Inr (''projects/'' @ project @ ''/secrets/'' @ secret @ ''/versions/'' @ version)"
    by (simp add: GetSecret_def secretPath_def)
qed

theorem C7_witness:
  "GetSecret \<lparr>client = mockSecretManagerClient ''FOO=bar'' True,
              config = \<lparr>ProjectID = ''p1'', SecretName = ''db'', SecretVersion = ''latest''\<rparr>\<rparr>
     = Inr ''FOO=bar''
   \<and> GetSecret \<lparr>client = mockSecretManagerClient ''FOO=bar'' False,
              config = \<lparr>ProjectID = ''p1'', SecretName = ''db'', SecretVersion = ''latest''\<rparr>\<rparr>
     = Inl (Wrapped ''failed to access secret'' (Foreign ''access error''))
   \<and> Error (Wrapped ''failed to access secret'' (Foreign ''access error''))
     = ''failed to access secret: access error''
   \<and> GetSecret \<lparr>client = \<lparr>AccessSecretVersion = Inr, CloseClient = None\<rparr>,
              config = \<lparr>ProjectID = ''p1'', SecretName = ''db'', SecretVersion = ''latest''\<rparr>\<rparr>
     = Inr ''projects/p1/secrets/db/versions/latest''"
  using
    C7_GetSecret [of "\<lparr>client = mockSecretManagerClient ''FOO=bar'' True,
              config = \<lparr>ProjectID = ''p1'', SecretName = ''db'', SecretVersion = ''latest''\<rparr>\<rparr>"
      "''FOO=bar''" "Foreign ''access error''" "''p1''" "''db''" "''latest''"]
    C7_GetSecret [of "\<lparr>client = mockSecretManagerClient ''FOO=bar'' False,
              config = \<lparr>ProjectID = ''p1'', SecretName = ''db'', SecretVersion = ''latest''\<rparr>\<rparr>"
      "''FOO=bar''" "Foreign ''access error''" "''p1''" "''db''" "''latest''"]
  by (simp add: mockSecretManagerClient_def)

end
